theory Spec2Isabelle
  imports Complex_Main
begin

section \<open>Tiles and the area algebra\<close>

text \<open>
  A tile is an \<open>int3\<close>: the coordinates x, y and the level z. An \<open>rmg::Area\<close> is a set of
  tiles; the source iterates over areas and takes \<open>*begin()\<close> of them, so an area is modelled
  as the list of its tiles in the container's iteration order, without repetitions.
\<close>

type_synonym int3 = "int \<times> int \<times> int"

type_synonym Area = "int3 list"

datatype error = EmptyDeref | IndexOutOfRange | OutOfRange | NullDeref

fun plus3 :: "int3 \<Rightarrow> int3 \<Rightarrow> int3" where
  "plus3 (a, b, c) (x, y, z) = (a + x, b + y, c + z)"

text \<open>
  Modelled from the spec: tile adjacency (\<open>int3::getDirs\<close> is not among the sources). Two
  tiles are adjacent when they lie on the same level and differ by at most one in x and y.
\<close>

definition dirs :: "int3 list" where
  "dirs = [(0, 1, 0), (0, -1, 0), (-1, 0, 0), (1, 0, 0),
           (1, 1, 0), (-1, 1, 0), (1, -1, 0), (-1, -1, 0)]"

definition neighbours :: "int3 \<Rightarrow> int3 list" where
  "neighbours t = map (plus3 t) dirs"

text \<open>
  Modelled from the spec: the area algebra of section 4.1 (\<open>RmgArea\<close> is not among the
  sources): membership, insertion, removal, union (\<open>operator+\<close>), intersection
  (\<open>operator*\<close>, \<open>intersect\<close>), subtraction, overlap, filtering (\<open>getSubarea\<close>), the tiles
  adjacent to but outside the set (\<open>getBorderOutside\<close>) and the tiles of the set with a
  neighbour outside it (\<open>getBorder\<close>).
\<close>

definition contains :: "Area \<Rightarrow> int3 \<Rightarrow> bool" where
  "contains a t = (t \<in> set a)"

definition add :: "Area \<Rightarrow> int3 \<Rightarrow> Area" where
  "add a t = (if t \<in> set a then a else a @ [t])"

definition erase :: "Area \<Rightarrow> int3 \<Rightarrow> Area" where
  "erase a t = removeAll t a"

definition unite :: "Area \<Rightarrow> Area \<Rightarrow> Area" where
  "unite a b = a @ filter (\<lambda>t. t \<notin> set a) b"

definition intersect :: "Area \<Rightarrow> Area \<Rightarrow> Area" where
  "intersect a b = filter (\<lambda>t. t \<in> set b) a"

definition subtract :: "Area \<Rightarrow> Area \<Rightarrow> Area" where
  "subtract a b = filter (\<lambda>t. t \<notin> set b) a"

definition overlap :: "Area \<Rightarrow> Area \<Rightarrow> bool" where
  "overlap a b = (intersect a b \<noteq> [])"

definition getSubarea :: "Area \<Rightarrow> (int3 \<Rightarrow> bool) \<Rightarrow> Area" where
  "getSubarea a p = filter p a"

definition getBorderOutside :: "Area \<Rightarrow> Area" where
  "getBorderOutside a = remdups (filter (\<lambda>t. t \<notin> set a) (concat (map neighbours a)))"

definition getBorder :: "Area \<Rightarrow> Area" where
  "getBorder a = filter (\<lambda>t. filter (\<lambda>n. n \<notin> set a) (neighbours t) \<noteq> []) a"

text \<open>
  Modelled from the spec: \<open>connectedAreas(area, computeBorders)\<close>, the list of the maximal
  connected components of an area (\<open>Functions.h\<close> is not among the sources). A component
  is grown from the first remaining tile by adding, round after round, the remaining tiles
  adjacent to it; the outside border of a component is \<open>getBorderOutside\<close> of it, so the
  flag needs no data of its own.
\<close>

function growComponent :: "Area \<Rightarrow> Area \<Rightarrow> Area" where
  "growComponent rest grown =
     (let new = filter (\<lambda>t. t \<notin> set grown \<and> intersect (neighbours t) grown \<noteq> []) (remdups rest)
      in if new = [] then grown else growComponent rest (grown @ new))"
  by pat_completeness auto
termination
proof (relation "measure (\<lambda>(rest, grown). card (set rest - set grown))", goal_cases)
  case 1
  show ?case by simp
next
  case (2 rest grown new)
  from 2(2) have "\<exists>t. t \<in> set new" by (cases new) auto
  then obtain t where t: "t \<in> set new" ..
  from t have tin: "t \<in> set rest" "t \<notin> set grown" unfolding 2(1) by auto
  have "set rest - set (grown @ new) \<subset> set rest - set grown"
    using t tin by auto
  then have "card (set rest - set (grown @ new)) < card (set rest - set grown)"
    by (intro psubset_card_mono) auto
  then show ?case by simp
qed

declare growComponent.simps [simp del]

function connectedAreas :: "Area \<Rightarrow> bool \<Rightarrow> Area list" where
  "connectedAreas [] computeBorders = []"
| "connectedAreas (t # ts) computeBorders =
     (let c = growComponent (t # ts) [t]
      in c # connectedAreas (subtract (t # ts) c) computeBorders)"
  by pat_completeness auto
termination
proof (relation "measure (\<lambda>(a, b). length a)", goal_cases)
  case 1
  show ?case by simp
next
  case (2 t ts computeBorders c)
  have grows: "set grown \<subseteq> set (growComponent rest grown)" for rest grown
  proof (induction rest grown rule: growComponent.induct)
    case (1 rest grown)
    show ?case
    proof (cases "filter (\<lambda>t. t \<notin> set grown \<and> intersect (neighbours t) grown \<noteq> []) (remdups rest) = []")
      case True
      then show ?thesis by (subst growComponent.simps) simp
    next
      case False
      from 1 [OF refl False] show ?thesis
        using False by (subst growComponent.simps) (auto simp: Let_def)
    qed
  qed
  have "t \<in> set c" using grows [of "[t]" "t # ts"] 2 by auto
  then have "length (filter (\<lambda>u. u \<notin> set c) (t # ts)) < length (t # ts)"
    by (intro length_filter_less [of t]) auto
  then show ?case by (simp add: subtract_def)
qed

text \<open>
  Modelled from the spec: \<open>computeDistanceMap\<close>, the distance of every tile from the border
  of the area and the inverse grouping by distance layer. Layer 0 is the border of the area,
  layer \<open>k + 1\<close> the border of what is left when the layers up to \<open>k\<close> are taken away. The
  \<open>std::map<int, Area>\<close> of the layers has the keys \<open>0 .. size - 1\<close> and is modelled by the
  list of its values.
\<close>

function distanceLayers :: "Area \<Rightarrow> Area list" where
  "distanceLayers tiles =
     (if tiles = [] then []
      else getBorder tiles # distanceLayers (subtract tiles (getBorder tiles)))"
  by pat_completeness auto
termination
proof (relation "measure length", goal_cases)
  case 1
  show ?case by simp
next
  case (2 tiles)
  define m where "m = Max (fst ` set tiles)"
  have "m \<in> fst ` set tiles" unfolding m_def using 2 by (intro Max_in) auto
  then obtain y z where yz: "(m, y, z) \<in> set tiles" by force
  have "(m + 1, y, z) \<notin> set tiles"
  proof
    assume "(m + 1, y, z) \<in> set tiles"
    then have "m + 1 \<in> fst ` set tiles" by force
    then have "m + 1 \<le> m" unfolding m_def by (intro Max_ge) auto
    then show False by simp
  qed
  moreover have "(m + 1, y, z) \<in> set (neighbours (m, y, z))"
    by (simp add: neighbours_def dirs_def)
  ultimately have "filter (\<lambda>n. n \<notin> set tiles) (neighbours (m, y, z)) \<noteq> []"
    by (auto simp: filter_empty_conv)
  with yz have "(m, y, z) \<in> set (getBorder tiles)" by (simp add: getBorder_def)
  with yz have "length (filter (\<lambda>u. u \<notin> set (getBorder tiles)) tiles) < length tiles"
    by (intro length_filter_less [of "(m, y, z)"]) auto
  then show ?case by (simp add: subtract_def)
qed

declare distanceLayers.simps [simp del]

fun layerIndex :: "Area list \<Rightarrow> int3 \<Rightarrow> nat option" where
  "layerIndex [] t = None"
| "layerIndex (l # ls) t = (if t \<in> set l then Some 0 else map_option Suc (layerIndex ls t))"

definition computeDistanceMap :: "Area \<Rightarrow> (int3 \<rightharpoonup> nat) \<times> Area list" where
  "computeDistanceMap a = (layerIndex (distanceLayers a), distanceLayers a)"

section \<open>The map, the zones and the lakes\<close>

text \<open>
  Modelled from the spec: the occupancy states of a grid tile and the zone types the source
  tests for (the enumerations are declared outside the sources); every zone type other than
  the two start types is an \<open>OTHER_ZONE_TYPE\<close>.
\<close>

datatype ETileType = FREE | POSSIBLE | BLOCKED

datatype ETemplateZoneType = PLAYER_START | CPU_START | OTHER_ZONE_TYPE nat

text \<open>
  Modelled from the spec: a \<open>Zone\<close> (the class is declared outside the sources), as far as
  the source reads it: its type and terrain, its three tile sets, and the
  modificators it looks up with \<open>getModificator\<close>. A missing modificator (a null pointer)
  is \<open>None\<close> or \<open>False\<close>; of a \<open>WaterAdopter\<close> the source reads the coast tiles, of a
  \<open>TownPlacer\<close> the number of towns, a count.
\<close>

record Zone =
  getType :: ETemplateZoneType
  getTerrainType :: nat
  zoneArea :: Area
  areaPossible :: Area
  freePaths :: Area
  waterAdopter :: "Area option"
  townPlacer :: "nat option"
  objectManager :: bool

text \<open>
  Modelled from the spec: the state shared with the rest of the generator: the grid
  (\<open>RmgMap\<close>, not among the sources: which tiles are on the map, the zone and the
  occupancy of each tile, with \<open>isPossible\<close> and \<open>setOccupied\<close>), the zones by id, and
  the state \<open>ext\<close> of the collaborators that are not among the sources (random generators,
  placed objects, distances to objects). \<open>updateZone\<close> writes to a zone in place.
\<close>

record 'x World =
  isOnMap :: "int3 \<Rightarrow> bool"
  getZoneID :: "int3 \<Rightarrow> int"
  occupied :: "int3 \<Rightarrow> ETileType"
  zones :: "int \<Rightarrow> Zone"
  ext :: 'x

definition isPossible :: "'x World \<Rightarrow> int3 \<Rightarrow> bool" where
  "isPossible w t = (occupied w t = POSSIBLE)"

definition setOccupied :: "int3 \<Rightarrow> ETileType \<Rightarrow> 'x World \<Rightarrow> 'x World" where
  "setOccupied t v w = w\<lparr>occupied := (occupied w)(t := v)\<rparr>"

definition updateZone :: "int \<Rightarrow> (Zone \<Rightarrow> Zone) \<Rightarrow> 'x World \<Rightarrow> 'x World" where
  "updateZone z f w = w\<lparr>zones := (zones w)(z := f (zones w z))\<rparr>"

text \<open>
  A \<open>Lake\<close> as the source declares it. \<open>neighbourZones\<close> is a \<open>std::map\<close> from zone ids
  to areas, iterated in ascending key order by \<open>dump\<close>: an association list kept sorted by
  key. \<open>nzAdd m z t\<close> is \<open>m[z].add(t)\<close>, which creates the entry when the key is new.
\<close>

record Lake =
  area :: Area
  distanceMap :: "int3 \<rightharpoonup> nat"
  reverseDistanceMap :: "Area list"
  neighbourZones :: "(int \<times> Area) list"
  keepConnections :: "int set"

fun nzAdd :: "(int \<times> Area) list \<Rightarrow> int \<Rightarrow> int3 \<Rightarrow> (int \<times> Area) list" where
  "nzAdd [] z t = [(z, [t])]"
| "nzAdd ((k, a) # m) z t =
     (if z < k then (z, [t]) # (k, a) # m
      else if z = k then (k, add a t) # m
      else (k, a) # nzAdd m z t)"

definition nzCount :: "Lake \<Rightarrow> int \<Rightarrow> bool" where
  "nzCount l z = (map_of (neighbourZones l) z \<noteq> None)"

text \<open>
  The members of \<open>WaterProxy\<close>: the id of the zone it works on, the lakes, and the index
  \<open>lakeMap\<close> from tiles to lake numbers.
\<close>

record WaterProxy =
  zone :: int
  lakes :: "Lake list"
  lakeMap :: "int3 \<rightharpoonup> nat"

section \<open>collectLakes\<close>

text \<open>
  \<open>*reverseDistanceMap[reverseDistanceMap.size() - 1].begin()\<close>: the first tile of the last
  layer. Dereferencing \<open>begin()\<close> of an empty area is undefined, here the error
  \<open>EmptyDeref\<close>; with no layer at all \<open>operator[]\<close> creates an empty one.
\<close>

definition deepestTile :: "Area list \<Rightarrow> error + int3" where
  "deepestTile rdm =
     (case rdm of [] \<Rightarrow> Inl EmptyDeref
      | _ # _ \<Rightarrow> (case last rdm of [] \<Rightarrow> Inl EmptyDeref | t # _ \<Rightarrow> Inr t))"

definition newLake :: "'x World \<Rightarrow> Area \<Rightarrow> Lake" where
  "newLake w lake =
     \<lparr>area = lake,
      distanceMap = fst (computeDistanceMap lake),
      reverseDistanceMap = snd (computeDistanceMap lake),
      neighbourZones =
        foldl (\<lambda>nz t. if isOnMap w t then nzAdd nz (getZoneID w t) t else nz) []
          (getBorderOutside lake),
      keepConnections = {}\<rparr>"

text \<open>
  One round of the loop of \<open>collectLakes\<close>, on the component \<open>lake\<close>. The counter
  \<open>lakeId\<close> starts at 0 and only grows: a natural number.
\<close>

definition collectLake ::
    "Area \<Rightarrow> nat \<times> WaterProxy \<times> 'x World \<Rightarrow> error + nat \<times> WaterProxy \<times> 'x World" where
  "collectLake lake st =
     (case st of (lakeId, wp, w) \<Rightarrow>
        let l = newLake w lake;
            wp' = wp\<lparr>lakes := lakes wp @ [l],
                     lakeMap := foldl (\<lambda>m t. m(t \<mapsto> lakeId)) (lakeMap wp) lake\<rparr>
        in if \<not> overlap lake (freePaths (zones w (zone wp))) then
             (case deepestTile (reverseDistanceMap l) of
                Inl e \<Rightarrow> Inl e
              | Inr t \<Rightarrow>
                  Inr (lakeId + 1, wp',
                       updateZone (zone wp) (\<lambda>z. z\<lparr>freePaths := add (freePaths z) t\<rparr>) w))
           else Inr (lakeId + 1, wp', w))"

fun collectLoop ::
    "Area list \<Rightarrow> nat \<times> WaterProxy \<times> 'x World \<Rightarrow> error + nat \<times> WaterProxy \<times> 'x World" where
  "collectLoop [] st = Inr st"
| "collectLoop (lake # rest) st =
     (case collectLake lake st of Inl e \<Rightarrow> Inl e | Inr st' \<Rightarrow> collectLoop rest st')"

definition collectLakes :: "WaterProxy \<Rightarrow> 'x World \<Rightarrow> error + WaterProxy \<times> 'x World" where
  "collectLakes wp w =
     (case collectLoop (connectedAreas (zoneArea (zones w (zone wp))) True) (0, wp, w) of
        Inl e \<Rightarrow> Inl e
      | Inr (lakeId, wp', w') \<Rightarrow> Inr (wp', w'))"

section \<open>waterKeepConnection\<close>



section \<open>dump\<close>








section \<open>The collaborators of the placement searches\<close>

text \<open>
  Modelled from the spec: \<open>RouteInfo\<close> (declared in \<open>WaterProxy.h\<close>, not among the sources):
  the footprint of the placed object, its visitable tile, the boarding tile and the reserved
  water tiles. A default-constructed one has empty areas and tiles at the origin.
\<close>

record RouteInfo =
  blocked :: Area
  visitable :: int3
  boarding :: int3
  water :: Area

definition emptyRouteInfo :: RouteInfo where
  "emptyRouteInfo = \<lparr>blocked = [], visitable = (0, 0, 0), boarding = (0, 0, 0), water = []\<rparr>"

text \<open>
  Of \<open>ObjectManager::OptimizeType\<close> the source names \<open>NONE\<close> only. A line of the log is
  the level the source logs at, the format string and the zone id it is given.
\<close>

datatype OptimizeType = NONE | WEIGHT | DISTANCE

datatype LogLevel = INFO | WARN | ERROR

type_synonym LogEntry = "LogLevel \<times> string \<times> int"

text \<open>
  The object manager, the object type registry, the path search and \<open>rmg::Object\<close> are not
  among the sources. Their operations are the fields of an environment that every function
  below takes as a parameter; \<open>'o\<close> is the type of an \<open>rmg::Object\<close>, \<open>'p\<close> of an
  \<open>rmg::Path\<close>. An operation of a zone or of its object manager takes the id of the zone
  first; an operation that may change the generator's state returns the new state, and one
  that moves the object returns the object too.

  \<^item> \<open>knownBoats\<close>, \<open>boatIsSail\<close>: the known subtypes of \<open>Obj::BOAT\<close>, and whether the boat
    created for a subtype is a \<open>CGBoat\<close> on the sailing layer;
  \<^item> \<open>nextItem\<close>: \<open>RandomGeneratorUtil::nextItem\<close> with the zone's generator;
  \<^item> \<open>createBoat\<close>, \<open>createShipyard\<close>: the \<open>rmg::Object\<close> of a subtype with the template
    of a terrain set; \<open>chooseRandomAppearance\<close> picks the subtype of the shipyard;
  \<^item> \<open>placeAndConnectObjectRadius\<close>, \<open>placeAndConnectObjectWeight\<close>: the two overloads
    of \<open>ObjectManager::placeAndConnectObject\<close>, with a minimal distance or with a weight
    function; the weight function reads the object as the manager has positioned it;
  \<^item> \<open>searchPathTile\<close>, \<open>searchPathArea\<close>, \<open>connectPath\<close>: of \<open>Zone\<close>;
  \<^item> \<open>pathNew\<close>, \<open>pathConnectArea\<close>, \<open>pathConnectPath\<close>, \<open>pathSearch\<close>, \<open>valid\<close>: of
    \<open>rmg::Path\<close>;
  \<^item> \<open>getArea\<close>, \<open>getVisitablePosition\<close>, \<open>frontBlockedArea\<close> (the blocked area of
    \<open>instances().front()\<close>): of \<open>rmg::Object\<close>;
  \<^item> \<open>getNearestObjectDistance\<close>: of the tile info of the map;
  \<^item> \<open>shipyardGuard\<close>: the guard strength of the generator's configuration.
\<close>

record ('o, 'p, 'x) Env =
  knownBoats :: "int list"
  boatIsSail :: "int \<Rightarrow> bool"
  nextItem :: "int list \<Rightarrow> 'x World \<Rightarrow> int \<times> 'x World"
  createBoat :: "int \<Rightarrow> nat \<Rightarrow> 'o"
  chooseRandomAppearance :: "nat \<Rightarrow> 'x World \<Rightarrow> int \<times> 'x World"
  createShipyard :: "int \<Rightarrow> nat \<Rightarrow> 'o"
  addGuard :: "int \<Rightarrow> 'o \<Rightarrow> int \<Rightarrow> 'x World \<Rightarrow> bool \<times> 'o \<times> 'x World"
  placeAndConnectObjectRadius ::
    "int \<Rightarrow> Area \<Rightarrow> 'o \<Rightarrow> int \<Rightarrow> bool \<Rightarrow> bool \<Rightarrow> OptimizeType \<Rightarrow> 'x World \<Rightarrow> 'p \<times> 'o \<times> 'x World"
  placeAndConnectObjectWeight ::
    "int \<Rightarrow> Area \<Rightarrow> 'o \<Rightarrow> ('o \<Rightarrow> int3 \<Rightarrow> real) \<Rightarrow> bool \<Rightarrow> bool \<Rightarrow> OptimizeType \<Rightarrow> 'x World
      \<Rightarrow> 'p \<times> 'o \<times> 'x World"
  placeObject :: "int \<Rightarrow> 'o \<Rightarrow> bool \<Rightarrow> bool \<Rightarrow> 'x World \<Rightarrow> 'x World"
  updateDistances :: "int \<Rightarrow> 'o \<Rightarrow> 'x World \<Rightarrow> 'x World"
  searchPathTile :: "int \<Rightarrow> int3 \<Rightarrow> bool \<Rightarrow> 'x World \<Rightarrow> 'p"
  searchPathArea :: "int \<Rightarrow> Area \<Rightarrow> bool \<Rightarrow> 'x World \<Rightarrow> 'p"
  connectPath :: "int \<Rightarrow> 'p \<Rightarrow> 'x World \<Rightarrow> 'x World"
  pathNew :: "Area \<Rightarrow> 'p"
  pathConnectArea :: "'p \<Rightarrow> Area \<Rightarrow> 'p"
  pathConnectPath :: "'p \<Rightarrow> 'p \<Rightarrow> 'p"
  pathSearch :: "'p \<Rightarrow> int3 \<Rightarrow> bool \<Rightarrow> 'p"
  valid :: "'p \<Rightarrow> bool"
  getArea :: "'o \<Rightarrow> Area"
  getVisitablePosition :: "'o \<Rightarrow> int3"
  frontBlockedArea :: "'o \<Rightarrow> Area"
  getNearestObjectDistance :: "'x World \<Rightarrow> int3 \<Rightarrow> real"
  shipyardGuard :: int

type_synonym 'x Placed = "error + bool \<times> RouteInfo \<times> 'x World"

section \<open>placeBoat\<close>

text \<open>
  The tiles \<open>shipPositions\<close> of a boarding position: its outside border within the
  available water.
\<close>

definition shipPositionsOf :: "Area \<Rightarrow> int3 \<Rightarrow> Area" where
  "shipPositionsOf waterAvailable boardingPosition =
     intersect (getBorderOutside [boardingPosition]) waterAvailable"

text \<open>
  The \<open>while\<close> loop of \<open>placeBoat\<close>. It returns \<open>!boardingPositions.empty()\<close>, the
  \<open>RouteInfo\<close> passed by reference and the state. The object manager of the land zone is
  dereferenced unchecked after a successful search: the error \<open>NullDeref\<close> when the land
  zone has none.
\<close>

function boatLoop ::
    "('o, 'p, 'x) Env \<Rightarrow> WaterProxy \<Rightarrow> int \<Rightarrow> Area \<Rightarrow> Area \<Rightarrow> 'o \<Rightarrow> RouteInfo \<Rightarrow> 'x World
      \<Rightarrow> 'x Placed" where
  "boatLoop env wp land waterAvailable [] rmgObject info w = Inr (False, info, w)"
| "boatLoop env wp land waterAvailable (boardingPosition # others) rmgObject info w =
     (let boardingPositions = boardingPosition # others;
          shipPositions = shipPositionsOf waterAvailable boardingPosition
      in if shipPositions = [] then
           boatLoop env wp land waterAvailable (erase boardingPositions boardingPosition)
             rmgObject info w
         else
           (let placed = placeAndConnectObjectRadius env (zone wp) shipPositions rmgObject 4
                           False True NONE w;
                path = fst placed;
                rmgObject' = fst (snd placed);
                w1 = snd (snd placed);
                landPath = searchPathTile env land boardingPosition False w1
            in if \<not> valid env path \<or> \<not> valid env landPath then
                 boatLoop env wp land waterAvailable (erase boardingPositions boardingPosition)
                   rmgObject' info w1
               else
                 (let info' = \<lparr>blocked = getArea env rmgObject',
                               visitable = getVisitablePosition env rmgObject',
                               boarding = boardingPosition,
                               water = shipPositions\<rparr>;
                      w2 = connectPath env (zone wp) path w1;
                      w3 = connectPath env land landPath w2;
                      w4 = placeObject env (zone wp) rmgObject' False True w3
                  in if \<not> objectManager (zones w4 land) then Inl NullDeref
                     else Inr (True, info', updateDistances env land rmgObject' w4))))"
  by pat_completeness auto
termination
  by (relation "measure (\<lambda>(env, wp, land, wa, bps, rest). length bps)")
    (auto simp: erase_def less_Suc_eq_le)

definition placeBoat ::
    "('o, 'p, 'x) Env \<Rightarrow> WaterProxy \<Rightarrow> int \<Rightarrow> Lake \<Rightarrow> RouteInfo \<Rightarrow> 'x World \<Rightarrow> 'x Placed" where
  "placeBoat env wp land lake info w =
     (if \<not> objectManager (zones w (zone wp)) then Inr (False, info, w)
      else
        (let sailingBoatTypes = filter (boatIsSail env) (knownBoats env)
         in if sailingBoatTypes = [] then Inr (False, info, w)
            else
              (let chosen = nextItem env sailingBoatTypes w;
                   w1 = snd chosen;
                   rmgObject = createBoat env (fst chosen) (getTerrainType (zones w1 (zone wp)));
                   waterAvailable = unite (areaPossible (zones w1 (zone wp)))
                                      (freePaths (zones w1 (zone wp)))
               in case map_of (neighbourZones lake) land of
                    None \<Rightarrow> Inl OutOfRange
                  | Some coast0 \<Rightarrow>
                      (let coast = intersect coast0
                                     (unite (areaPossible (zones w1 land)) (freePaths (zones w1 land)));
                           boardingPositions = getSubarea coast
                             (\<lambda>tile. if getNearestObjectDistance env w1 tile \<le> 3 then False
                                      else intersect (getBorderOutside [tile]) waterAvailable \<noteq> [])
                       in boatLoop env wp land waterAvailable boardingPositions rmgObject info w1))))"

section \<open>placeShipyard\<close>

text \<open>
  The acceptance function that \<open>placeShipyard\<close> passes to the object manager. It does not
  look at the tile it is given.
\<close>

definition shipyardWeight ::
    "('o, 'p, 'x) Env \<Rightarrow> Area \<Rightarrow> int3 \<Rightarrow> 'o \<Rightarrow> int3 \<Rightarrow> real" where
  "shipyardWeight env shipPositions boardingPosition rmgObject tile =
     (let shipyardOut = getBorderOutside (frontBlockedArea env rmgObject)
      in if \<not> contains shipyardOut boardingPosition \<or> intersect shipyardOut shipPositions = []
         then - 1 else 1)"

definition blockTiles :: "Area \<Rightarrow> 'x World \<Rightarrow> 'x World" where
  "blockTiles tiles w =
     foldl (\<lambda>w i. if isOnMap w i \<and> isPossible w i then setOccupied i BLOCKED w else w) w tiles"

function shipyardLoop ::
    "('o, 'p, 'x) Env \<Rightarrow> WaterProxy \<Rightarrow> int \<Rightarrow> bool \<Rightarrow> Area \<Rightarrow> Area \<Rightarrow> 'o \<Rightarrow> RouteInfo \<Rightarrow> 'x World
      \<Rightarrow> 'x Placed" where
  "shipyardLoop env wp land guarded waterAvailable [] rmgObject info w = Inr (False, info, w)"
| "shipyardLoop env wp land guarded waterAvailable (boardingPosition # others) rmgObject info w =
     (let boardingPositions = boardingPosition # others;
          shipPositions = shipPositionsOf waterAvailable boardingPosition
      in if shipPositions = [] then
           shipyardLoop env wp land guarded waterAvailable
             (erase boardingPositions boardingPosition) rmgObject info w
         else
           (let placed = placeAndConnectObjectWeight env land (areaPossible (zones w land))
                           rmgObject (shipyardWeight env shipPositions boardingPosition)
                           guarded True NONE w;
                path = fst placed;
                rmgObject' = fst (snd placed);
                w1 = snd (snd placed);
                searchArea = subtract (areaPossible (zones w1 land)) (getArea env rmgObject');
                pathToBoarding =
                  pathSearch env
                    (pathConnectPath env
                       (pathConnectArea env (pathNew env searchArea) (freePaths (zones w1 land)))
                       path)
                    boardingPosition False;
                shipyardOutToBlock =
                  subtract (intersect (getBorderOutside (getArea env rmgObject')) waterAvailable)
                    shipPositions;
                shipPositions' = subtract shipPositions shipyardOutToBlock;
                pathToBoat = searchPathArea env (zone wp) shipPositions' True w1
            in if \<not> valid env path \<or> \<not> valid env pathToBoarding \<or> \<not> valid env pathToBoat then
                 shipyardLoop env wp land guarded waterAvailable
                   (erase boardingPositions boardingPosition) rmgObject' info w1
               else
                 (let w2 = connectPath env land path w1;
                      w3 = connectPath env land pathToBoarding w2;
                      w4 = connectPath env (zone wp) pathToBoat w3;
                      info' = \<lparr>blocked = getArea env rmgObject',
                               visitable = getVisitablePosition env rmgObject',
                               boarding = boardingPosition,
                               water = shipPositions'\<rparr>;
                      w5 = placeObject env land rmgObject' guarded True w4;
                      w6 = updateZone (zone wp)
                             (\<lambda>z. z\<lparr>areaPossible := subtract (areaPossible z) shipyardOutToBlock\<rparr>)
                             w5
                  in Inr (True, info', blockTiles shipyardOutToBlock w6))))"
  by pat_completeness auto
termination
  by (relation "measure (\<lambda>(env, wp, land, g, wa, bps, rest). length bps)")
    (auto simp: erase_def less_Suc_eq_le)

definition placeShipyard ::
    "('o, 'p, 'x) Env \<Rightarrow> WaterProxy \<Rightarrow> int \<Rightarrow> Lake \<Rightarrow> int \<Rightarrow> RouteInfo \<Rightarrow> 'x World \<Rightarrow> 'x Placed" where
  "placeShipyard env wp land lake guard info w =
     (if \<not> objectManager (zones w land) then Inr (False, info, w)
      else
        (let chosen = chooseRandomAppearance env (getTerrainType (zones w land)) w;
             w1 = snd chosen;
             rmgObject0 = createShipyard env (fst chosen) (getTerrainType (zones w1 land));
             guarding = addGuard env land rmgObject0 guard w1;
             guarded = fst guarding;
             rmgObject = fst (snd guarding);
             w2 = snd (snd guarding);
             waterAvailable =
               intersect (unite (areaPossible (zones w2 (zone wp))) (freePaths (zones w2 (zone wp))))
                 (area lake)
         in case map_of (neighbourZones lake) land of
              None \<Rightarrow> Inl OutOfRange
            | Some coast0 \<Rightarrow>
                (let coast = intersect coast0
                               (unite (areaPossible (zones w2 land)) (freePaths (zones w2 land)));
                     boardingPositions = getSubarea coast
                       (\<lambda>tile. intersect (getBorderOutside [tile]) waterAvailable \<noteq> [])
                 in shipyardLoop env wp land guarded waterAvailable boardingPositions rmgObject
                      info w2)))"

section \<open>waterRoute\<close>

text \<open>
  The body of the loop of \<open>waterRoute\<close> over the lakes, for the zone \<open>dst\<close>. It threads the
  \<open>RouteInfo\<close> \<open>result\<close>, the lines written to the log and the state.
\<close>

definition blockBorder :: "Area \<Rightarrow> 'x World \<Rightarrow> 'x World" where
  "blockBorder tiles w =
     foldl (\<lambda>w ct. if isPossible w ct then setOccupied ct BLOCKED w else w) w tiles"

definition borderOf :: "Lake \<Rightarrow> int \<Rightarrow> Area" where
  "borderOf lake z = (case map_of (neighbourZones lake) z of None \<Rightarrow> [] | Some a \<Rightarrow> a)"

definition routeLake ::
    "('o, 'p, 'x) Env \<Rightarrow> WaterProxy \<Rightarrow> int \<Rightarrow> Lake \<Rightarrow> RouteInfo \<times> LogEntry list \<times> 'x World
      \<Rightarrow> error + RouteInfo \<times> LogEntry list \<times> 'x World" where
  "routeLake env wp dst lake st =
     (case st of (result, logs, w) \<Rightarrow>
        if nzCount lake dst then
          if dst \<notin> keepConnections lake then
            Inr (result, logs,
                 updateZone dst
                   (\<lambda>z. z\<lparr>areaPossible := subtract (areaPossible z) (borderOf lake dst)\<rparr>)
                   (blockBorder (borderOf lake dst) w))
          else if length (remdups (area lake)) < 25 then
            Inr (result, logs @ [(INFO, ''Skipping very small lake at zone %d'', dst)], w)
          else
            (let zoneTowns = (case townPlacer (zones w dst) of None \<Rightarrow> 0 | Some m \<Rightarrow> m)
             in if getType (zones w dst) = PLAYER_START \<or> getType (zones w dst) = CPU_START
                   \<or> zoneTowns \<noteq> 0 then
                  (case placeShipyard env wp dst lake (shipyardGuard env) result w of
                     Inl e \<Rightarrow> Inl e
                   | Inr (True, result1, w1) \<Rightarrow>
                       Inr (result1,
                            logs @ [(INFO, ''Shipyard successfully placed at zone %d'', dst)], w1)
                   | Inr (False, result1, w1) \<Rightarrow>
                       (case placeBoat env wp dst lake result1 w1 of
                          Inl e \<Rightarrow> Inl e
                        | Inr (True, result2, w2) \<Rightarrow>
                            Inr (result2,
                                 logs @ [(WARN, ''Shipyard placement failed, trying boat at zone %d'', dst),
                                         (WARN, ''Boat successfully placed at zone %d'', dst)], w2)
                        | Inr (False, result2, w2) \<Rightarrow>
                            Inr (result2,
                                 logs @ [(WARN, ''Shipyard placement failed, trying boat at zone %d'', dst),
                                         (ERROR, ''Boat placement failed at zone %d'', dst)], w2)))
                else
                  (case placeBoat env wp dst lake result w of
                     Inl e \<Rightarrow> Inl e
                   | Inr (True, result1, w1) \<Rightarrow>
                       Inr (result1,
                            logs @ [(INFO, ''Boat successfully placed at zone %d'', dst)], w1)
                   | Inr (False, result1, w1) \<Rightarrow>
                       Inr (result1,
                            logs @ [(ERROR, ''Boat placement failed at zone %d'', dst)], w1)))
        else Inr (result, logs, w))"

fun routeLoop ::
    "('o, 'p, 'x) Env \<Rightarrow> WaterProxy \<Rightarrow> int \<Rightarrow> Lake list \<Rightarrow> RouteInfo \<times> LogEntry list \<times> 'x World
      \<Rightarrow> error + RouteInfo \<times> LogEntry list \<times> 'x World" where
  "routeLoop env wp dst [] st = Inr st"
| "routeLoop env wp dst (lake # rest) st =
     (case routeLake env wp dst lake st of
        Inl e \<Rightarrow> Inl e
      | Inr st' \<Rightarrow> routeLoop env wp dst rest st')"

definition waterRoute ::
    "('o, 'p, 'x) Env \<Rightarrow> WaterProxy \<Rightarrow> int \<Rightarrow> 'x World
      \<Rightarrow> error + RouteInfo \<times> LogEntry list \<times> 'x World" where
  "waterRoute env wp dst w =
     (case waterAdopter (zones w dst) of
        None \<Rightarrow> Inr (emptyRouteInfo, [], w)
      | Some coastTiles \<Rightarrow>
          if coastTiles = [] then Inr (emptyRouteInfo, [], w)
          else routeLoop env wp dst (lakes wp) (emptyRouteInfo, [], w))"

section \<open>Concrete scenarios\<close>

text \<open>
  A pond of one tile at the origin, the water zone 0. The tiles east of it belong to the
  zone 1, all the others to the zone 2. \<open>pondProxy\<close> is the state of the \<open>WaterProxy\<close>
  after \<open>collectLakes\<close>.
\<close>

definition pondZone :: Zone where
  "pondZone = \<lparr>getType = OTHER_ZONE_TYPE 0, getTerrainType = 0, zoneArea = [(0, 0, 0)],
     areaPossible = [(0, 0, 0)], freePaths = [], waterAdopter = None, townPlacer = None,
     objectManager = True\<rparr>"

definition shoreZone :: Zone where
  "shoreZone = \<lparr>getType = PLAYER_START, getTerrainType = 1, zoneArea = [(1, 0, 0), (1, 1, 0)],
     areaPossible = [(1, 0, 0), (1, 1, 0)], freePaths = [], waterAdopter = Some [(1, 0, 0)],
     townPlacer = Some 1, objectManager = True\<rparr>"

definition pondWorld :: "int3 list World" where
  "pondWorld = \<lparr>isOnMap = (\<lambda>t. True),
     getZoneID = (\<lambda>t. if t = (0, 0, 0) then 0 else if 0 < fst t then 1 else 2),
     occupied = (\<lambda>t. POSSIBLE),
     zones = (\<lambda>i. if i = 0 then pondZone else shoreZone),
     ext = []\<rparr>"

definition freshProxy :: WaterProxy where
  "freshProxy = \<lparr>zone = 0, lakes = [], lakeMap = Map.empty\<rparr>"




text \<open>
  Simple collaborators for the scenarios. An object is the tile it stands on, which is its
  whole area and its visitable position; a path is its validity; the state of the
  collaborators is the list of the objects placed so far. The object manager puts an
  object on the first tile of the search area (the first with a positive weight), every
  path search succeeds, there is no guard, and the sailing boat is the subtype 1.
\<close>

definition demoEnv :: "(int3, bool, int3 list) Env" where
  "demoEnv = \<lparr>
     knownBoats = [0, 1],
     boatIsSail = (\<lambda>s. s = 1),
     nextItem = (\<lambda>xs w. (case xs of [] \<Rightarrow> 0 | x # _ \<Rightarrow> x, w)),
     createBoat = (\<lambda>s terrain. (0, 0, 0)),
     chooseRandomAppearance = (\<lambda>terrain w. (0, w)),
     createShipyard = (\<lambda>s terrain. (0, 0, 0)),
     addGuard = (\<lambda>z obj strength w. (False, obj, w)),
     placeAndConnectObjectRadius = (\<lambda>z searchArea obj radius guarded upd opt w.
        case searchArea of [] \<Rightarrow> (False, obj, w) | t # _ \<Rightarrow> (True, t, w)),
     placeAndConnectObjectWeight = (\<lambda>z searchArea obj weight guarded upd opt w.
        case filter (\<lambda>t. 0 < weight t t) searchArea of
          [] \<Rightarrow> (False, obj, w) | t # _ \<Rightarrow> (True, t, w)),
     placeObject = (\<lambda>z obj guarded upd w. w\<lparr>ext := ext w @ [obj]\<rparr>),
     updateDistances = (\<lambda>z obj w. w),
     searchPathTile = (\<lambda>z t partial w. True),
     searchPathArea = (\<lambda>z a partial w. True),
     connectPath = (\<lambda>z p w. w),
     pathNew = (\<lambda>a. True),
     pathConnectArea = (\<lambda>p a. p),
     pathConnectPath = (\<lambda>p q. p \<and> q),
     pathSearch = (\<lambda>p t partial. p),
     valid = (\<lambda>p. p),
     getArea = (\<lambda>obj. [obj]),
     getVisitablePosition = (\<lambda>obj. obj),
     frontBlockedArea = (\<lambda>obj. [obj]),
     getNearestObjectDistance = (\<lambda>w t. 10),
     shipyardGuard = 0\<rparr>"

text \<open>
  The pond with its lake written out, and with one border tile of the zone 1 that is not
  \<open>POSSIBLE\<close> but \<open>FREE\<close>. No connection of the lake is kept.
\<close>

definition pondLake :: Lake where
  "pondLake = \<lparr>area = [(0, 0, 0)], distanceMap = [(0, 0, 0) \<mapsto> 0],
     reverseDistanceMap = [[(0, 0, 0)]],
     neighbourZones = [(1, [(1, 0, 0), (1, 1, 0), (1, - 1, 0)]),
                       (2, [(0, 1, 0), (0, - 1, 0), (- 1, 0, 0), (- 1, 1, 0), (- 1, - 1, 0)])],
     keepConnections = {}\<rparr>"

definition severProxy :: WaterProxy where
  "severProxy = \<lparr>zone = 0, lakes = [pondLake], lakeMap = [(0, 0, 0) \<mapsto> 0]\<rparr>"

definition severWorld :: "int3 list World" where
  "severWorld = pondWorld\<lparr>occupied := (\<lambda>t. if t = (1, 1, 0) then FREE else POSSIBLE)\<rparr>"

text \<open>
  Two lakes of 25 tiles and a lake of 24 tiles, written by hand. The zone 1, a start zone
  with a town, lies between the two lakes and borders both; the zones 2 and 3, with neither
  a town nor a start, border one lake each. The template keeps every connection.
\<close>

definition rectangle :: "int \<Rightarrow> int \<Rightarrow> int \<Rightarrow> int \<Rightarrow> Area" where
  "rectangle x0 x1 y0 y1 = concat (map (\<lambda>x. map (\<lambda>y. (x, y, 0)) [y0..y1]) [x0..x1])"

definition westLake :: Lake where
  "westLake = \<lparr>area = rectangle (- 5) (- 1) 0 4, distanceMap = Map.empty,
     reverseDistanceMap = [], 
     neighbourZones = [(1, rectangle 0 0 (- 1) 5), (2, rectangle (- 6) (- 6) (- 1) 5)],
     keepConnections = {1, 2}\<rparr>"

definition eastLake :: Lake where
  "eastLake = \<lparr>area = rectangle 1 5 0 4, distanceMap = Map.empty,
     reverseDistanceMap = [],
     neighbourZones = [(1, rectangle 0 0 (- 1) 5), (3, rectangle 6 6 (- 1) 5)],
     keepConnections = {1, 3}\<rparr>"

definition smallLake :: Lake where
  "smallLake = \<lparr>area = rectangle (- 4) (- 1) 0 5, distanceMap = Map.empty,
     reverseDistanceMap = [],
     neighbourZones = [(1, rectangle 0 0 (- 1) 6)],
     keepConnections = {1}\<rparr>"

definition coastZones :: "int \<Rightarrow> Zone" where
  "coastZones i =
     (if i = 0 then
        \<lparr>getType = OTHER_ZONE_TYPE 0, getTerrainType = 0,
         zoneArea = rectangle (- 5) (- 1) 0 4 @ rectangle 1 5 0 4,
         areaPossible = rectangle (- 5) (- 1) 0 4 @ rectangle 1 5 0 4,
         freePaths = [], waterAdopter = None, townPlacer = None, objectManager = True\<rparr>
      else if i = 1 then
        \<lparr>getType = PLAYER_START, getTerrainType = 1, zoneArea = rectangle 0 0 (- 1) 5,
         areaPossible = rectangle 0 0 (- 1) 5, freePaths = [],
         waterAdopter = Some [(0, 0, 0)], townPlacer = Some 1, objectManager = True\<rparr>
      else
        \<lparr>getType = OTHER_ZONE_TYPE 1, getTerrainType = 1,
         zoneArea = rectangle (- 6) (- 6) 0 4 @ rectangle 6 6 0 4,
         areaPossible = rectangle (- 6) (- 6) 0 4 @ rectangle 6 6 0 4, freePaths = [],
         waterAdopter = Some [(- 6, 0, 0)], townPlacer = None, objectManager = True\<rparr>)"

definition coastWorld :: "int3 list World" where
  "coastWorld = \<lparr>isOnMap = (\<lambda>t. True),
     getZoneID = (\<lambda>t. if t \<in> set (zoneArea (coastZones 0)) then 0 else if fst t < - 5 then 2
                       else if 5 < fst t then 3 else 1),
     occupied = (\<lambda>t. POSSIBLE),
     zones = coastZones,
     ext = []\<rparr>"

definition coastProxy :: WaterProxy where
  "coastProxy = \<lparr>zone = 0, lakes = [westLake, eastLake], lakeMap = Map.empty\<rparr>"

definition smallProxy :: WaterProxy where
  "smallProxy = \<lparr>zone = 0, lakes = [smallLake], lakeMap = Map.empty\<rparr>"

text \<open>The same world when no zone has an object manager, and collaborators whose paths
  are never valid.\<close>

definition noManagerWorld :: "int3 list World" where
  "noManagerWorld = coastWorld\<lparr>zones := (\<lambda>i. (coastZones i)\<lparr>objectManager := False\<rparr>)\<rparr>"

definition blockedEnv :: "(int3, bool, int3 list) Env" where
  "blockedEnv = demoEnv\<lparr>valid := (\<lambda>p. False)\<rparr>"

text \<open>
  A water zone of two components: two tiles at the origin with no free tile, and one tile
  at \<open>(5, 5, 0)\<close> that is free already.
\<close>

definition pairWorld :: "int3 list World" where
  "pairWorld = pondWorld\<lparr>
     getZoneID := (\<lambda>t. if t \<in> set [(0, 0, 0), (1, 0, 0), (5, 5, 0)] then 0 else 1),
     zones := (\<lambda>i. if i = 0
                     then pondZone\<lparr>zoneArea := [(0, 0, 0), (1, 0, 0), (5, 5, 0)],
                                    areaPossible := [(0, 0, 0), (1, 0, 0), (5, 5, 0)],
                                    freePaths := [(5, 5, 0)]\<rparr>
                     else shoreZone)\<rparr>"

text \<open>The same world when only the land zone 1 has no object manager.\<close>

definition landNoManagerWorld :: "int3 list World" where
  "landNoManagerWorld =
     coastWorld\<lparr>zones := (\<lambda>i. if i = 1 then (coastZones 1)\<lparr>objectManager := False\<rparr>
                                else coastZones i)\<rparr>"

section \<open>Notions used in the statements\<close>


text \<open>The line that \<open>waterRoute\<close> logs for a lake below the size threshold.\<close>

definition skipLine :: "int \<Rightarrow> LogEntry" where
  "skipLine dst = (INFO, ''Skipping very small lake at zone %d'', dst)"

text \<open>
  The test of \<open>waterRoute\<close> for the shipyard strategy: the zone is a start zone of a player
  or of the computer, or it hosts at least one town.
\<close>

definition startOrTown :: "Zone \<Rightarrow> bool" where
  "startOrTown z = (getType z = PLAYER_START \<or> getType z = CPU_START
                    \<or> (case townPlacer z of None \<Rightarrow> False | Some m \<Rightarrow> 1 \<le> m))"

text \<open>
  Two environments agree on every collaborator that \<open>placeBoat\<close> calls, and on every
  collaborator that \<open>placeShipyard\<close> calls. They may differ in all the others.
\<close>

definition sameBoatOps :: "('o, 'p, 'x) Env \<Rightarrow> ('o, 'p, 'x) Env \<Rightarrow> bool" where
  "sameBoatOps env env' =
     (knownBoats env' = knownBoats env \<and> boatIsSail env' = boatIsSail env
      \<and> nextItem env' = nextItem env \<and> createBoat env' = createBoat env
      \<and> placeAndConnectObjectRadius env' = placeAndConnectObjectRadius env
      \<and> placeObject env' = placeObject env \<and> updateDistances env' = updateDistances env
      \<and> searchPathTile env' = searchPathTile env \<and> connectPath env' = connectPath env
      \<and> valid env' = valid env \<and> getArea env' = getArea env
      \<and> getVisitablePosition env' = getVisitablePosition env
      \<and> getNearestObjectDistance env' = getNearestObjectDistance env)"

definition sameShipyardOps :: "('o, 'p, 'x) Env \<Rightarrow> ('o, 'p, 'x) Env \<Rightarrow> bool" where
  "sameShipyardOps env env' =
     (chooseRandomAppearance env' = chooseRandomAppearance env
      \<and> createShipyard env' = createShipyard env \<and> addGuard env' = addGuard env
      \<and> placeAndConnectObjectWeight env' = placeAndConnectObjectWeight env
      \<and> placeObject env' = placeObject env \<and> searchPathArea env' = searchPathArea env
      \<and> connectPath env' = connectPath env \<and> pathNew env' = pathNew env
      \<and> pathConnectArea env' = pathConnectArea env \<and> pathConnectPath env' = pathConnectPath env
      \<and> pathSearch env' = pathSearch env \<and> valid env' = valid env \<and> getArea env' = getArea env
      \<and> getVisitablePosition env' = getVisitablePosition env
      \<and> frontBlockedArea env' = frontBlockedArea env \<and> shipyardGuard env' = shipyardGuard env)"


text \<open>
  \<open>placedIn logs\<close>: some line of the log reports a successful placement. \<open>rebase\<close> and
  \<open>rebaseRoute\<close> turn the outcome of a run that started from one \<open>RouteInfo\<close> into the
  outcome of the run that starts from \<open>j\<close>: a success keeps what it wrote, without a
  success the \<open>RouteInfo\<close> is still \<open>j\<close>.
\<close>

definition placedIn :: "LogEntry list \<Rightarrow> bool" where
  "placedIn logs = (\<exists>e \<in> set logs.
      fst (snd e) = ''Shipyard successfully placed at zone %d''
      \<or> fst (snd e) = ''Boat successfully placed at zone %d'')"

definition rebase :: "RouteInfo \<Rightarrow> 'x Placed \<Rightarrow> 'x Placed" where
  "rebase j r = (case r of Inl e \<Rightarrow> Inl e
                 | Inr (b, info, w) \<Rightarrow> Inr (b, if b then info else j, w))"

definition rebaseRoute ::
    "RouteInfo \<Rightarrow> nat \<Rightarrow> error + RouteInfo \<times> LogEntry list \<times> 'x World
      \<Rightarrow> error + RouteInfo \<times> LogEntry list \<times> 'x World" where
  "rebaseRoute j n r =
     (case r of Inl e \<Rightarrow> Inl e
      | Inr (info, logs, w) \<Rightarrow> Inr (if placedIn (drop n logs) then info else j, logs, w))"

text \<open>
  The areas of a list are pairwise disjoint. \<open>promote free cs\<close> is the set \<open>freePaths\<close>
  after the loop of \<open>collectLakes\<close> over the components \<open>cs\<close>, \<open>indexTiles m n cs\<close> the
  index \<open>lakeMap\<close> after it when the first component gets the number \<open>n\<close>, and
  \<open>setFreePaths\<close> the state in which \<open>freePaths\<close> of a zone is replaced.
\<close>

fun disjointAreas :: "Area list \<Rightarrow> bool" where
  "disjointAreas [] = True"
| "disjointAreas (c # cs) = (set c \<inter> \<Union> (set ` set cs) = {} \<and> disjointAreas cs)"

fun promote :: "Area \<Rightarrow> Area list \<Rightarrow> Area" where
  "promote free [] = free"
| "promote free (c # cs) =
     promote (if overlap c free then free else add free (hd (last (distanceLayers c)))) cs"

fun indexTiles :: "(int3 \<rightharpoonup> nat) \<Rightarrow> nat \<Rightarrow> Area list \<Rightarrow> (int3 \<rightharpoonup> nat)" where
  "indexTiles m n [] = m"
| "indexTiles m n (c # cs) = indexTiles (\<lambda>t. if t \<in> set c then Some n else m t) (Suc n) cs"

definition setFreePaths :: "int \<Rightarrow> Area \<Rightarrow> 'x World \<Rightarrow> 'x World" where
  "setFreePaths z free w = w\<lparr>zones := (zones w)(z := (zones w z)\<lparr>freePaths := free\<rparr>)\<rparr>"

section \<open>Facts about the area algebra\<close>

lemma intersect_empty_conv: "(intersect a b = []) = (set a \<inter> set b = {})"
  by (auto simp: intersect_def filter_empty_conv)

lemma set_intersect: "set (intersect a b) = set a \<inter> set b"
  by (auto simp: intersect_def)

lemma set_subtract: "set (subtract a b) = set a - set b"
  by (auto simp: subtract_def)

lemma set_unite: "set (unite a b) = set a \<union> set b"
  by (auto simp: unite_def)

lemma set_add: "set (add a t) = insert t (set a)"
  by (auto simp: add_def)



lemma take_prefix_append: "take (length a) b = a \<Longrightarrow> \<exists>d. b = a @ d"
  by (metis append_take_drop_id)

lemma nzCount_map_of: "nzCount lake z \<Longrightarrow> \<exists>a. map_of (neighbourZones lake) z = Some a"
  by (simp add: nzCount_def)

section \<open>dump and waterKeepConnection\<close>







section \<open>The placement loops\<close>

text \<open>A search that fails leaves the \<open>RouteInfo\<close> as it was.\<close>

lemma boatLoop_failure_keeps_info:
  "boatLoop env wp land wa bps obj info w = Inr (False, info', w') \<Longrightarrow> info' = info"
  by (induction env wp land wa bps obj info w rule: boatLoop.induct)
    (auto simp: Let_def split: if_splits)

lemma shipyardLoop_failure_keeps_info:
  "shipyardLoop env wp land g wa bps obj info w = Inr (False, info', w') \<Longrightarrow> info' = info"
  by (induction env wp land g wa bps obj info w rule: shipyardLoop.induct)
    (auto simp: Let_def split: if_splits)

text \<open>When no path is ever valid, both searches run out of candidates and return false.\<close>

lemma boatLoop_exhausted:
  "\<forall>p. \<not> valid env p \<Longrightarrow> \<exists>w'. boatLoop env wp land wa bps obj info w = Inr (False, info, w')"
  by (induction env wp land wa bps obj info w rule: boatLoop.induct)
    (auto simp: Let_def split: if_splits)

lemma shipyardLoop_exhausted:
  "\<forall>p. \<not> valid env p \<Longrightarrow>
   \<exists>w'. shipyardLoop env wp land g wa bps obj info w = Inr (False, info, w')"
  by (induction env wp land g wa bps obj info w rule: shipyardLoop.induct)
    (auto simp: Let_def split: if_splits)

text \<open>The only error inside the loops is the unchecked use of the land zone's manager.\<close>

lemma shipyardLoop_no_error:
  "shipyardLoop env wp land g wa bps obj info w \<noteq> Inl e"
  by (induction env wp land g wa bps obj info w rule: shipyardLoop.induct)
    (auto simp: Let_def split: if_splits)

lemma boatLoop_error:
  "boatLoop env wp land wa bps obj info w = Inl e \<Longrightarrow> e = NullDeref"
  by (induction env wp land wa bps obj info w rule: boatLoop.induct)
    (auto simp: Let_def split: if_splits)

text \<open>Each search depends only on the collaborators it calls.\<close>

lemma boatLoop_sameBoatOps:
  "sameBoatOps env env' \<Longrightarrow>
   boatLoop env' wp land wa bps obj info w = boatLoop env wp land wa bps obj info w"
  by (induction env wp land wa bps obj info w rule: boatLoop.induct)
    (simp_all add: Let_def sameBoatOps_def)

lemma placeBoat_sameBoatOps:
  assumes s: "sameBoatOps env env'"
  shows "placeBoat env' wp land lake info w = placeBoat env wp land lake info w"
proof -
  from s have eqs: "knownBoats env' = knownBoats env" "boatIsSail env' = boatIsSail env"
    "nextItem env' = nextItem env" "createBoat env' = createBoat env"
    "getNearestObjectDistance env' = getNearestObjectDistance env"
    by (simp_all add: sameBoatOps_def)
  have l: "boatLoop env' = boatLoop env"
    by (intro ext) (rule boatLoop_sameBoatOps [OF s])
  show ?thesis unfolding placeBoat_def eqs l by (rule refl)
qed

lemma shipyardLoop_sameShipyardOps:
  "sameShipyardOps env env' \<Longrightarrow>
   shipyardLoop env' wp land g wa bps obj info w = shipyardLoop env wp land g wa bps obj info w"
  by (induction env wp land g wa bps obj info w rule: shipyardLoop.induct)
    (simp_all add: Let_def sameShipyardOps_def shipyardWeight_def [abs_def])

lemma placeShipyard_sameShipyardOps:
  assumes s: "sameShipyardOps env env'"
  shows "placeShipyard env' wp land lake guard info w = placeShipyard env wp land lake guard info w"
proof -
  from s have eqs: "chooseRandomAppearance env' = chooseRandomAppearance env"
    "createShipyard env' = createShipyard env" "addGuard env' = addGuard env"
    by (simp_all add: sameShipyardOps_def)
  have l: "shipyardLoop env' = shipyardLoop env"
    by (intro ext) (rule shipyardLoop_sameShipyardOps [OF s])
  show ?thesis unfolding placeShipyard_def eqs l by (rule refl)
qed






text \<open>
  The \<open>RouteInfo\<close> passed in is only written, never read: started from another one, a
  search takes the same course.
\<close>

lemma boatLoop_info:
  "boatLoop env wp land wa bps obj j w = rebase j (boatLoop env wp land wa bps obj info w)"
  by (induction env wp land wa bps obj info w rule: boatLoop.induct)
    (simp_all add: Let_def rebase_def)

lemma shipyardLoop_info:
  "shipyardLoop env wp land g wa bps obj j w
     = rebase j (shipyardLoop env wp land g wa bps obj info w)"
  by (induction env wp land g wa bps obj info w rule: shipyardLoop.induct)
    (simp_all add: Let_def rebase_def)

lemma placeBoat_info:
  "placeBoat env wp land lake j w = rebase j (placeBoat env wp land lake info w)"
proof -
  have l: "\<And>wa bps obj w. boatLoop env wp land wa bps obj j w
             = rebase j (boatLoop env wp land wa bps obj info w)"
    by (rule boatLoop_info)
  show ?thesis
    unfolding placeBoat_def Let_def l
    by (simp add: rebase_def split: option.splits)
qed

lemma placeShipyard_info:
  "placeShipyard env wp land lake guard j w = rebase j (placeShipyard env wp land lake guard info w)"
proof -
  have l: "\<And>g wa bps obj w. shipyardLoop env wp land g wa bps obj j w
             = rebase j (shipyardLoop env wp land g wa bps obj info w)"
    by (rule shipyardLoop_info)
  show ?thesis
    unfolding placeShipyard_def Let_def l
    by (simp add: rebase_def split: option.splits)
qed

lemma placeBoat_cases:
  obtains (err) e where "placeBoat env wp land lake info w = Inl e"
  | (ok) r w' where "placeBoat env wp land lake info w = Inr (True, r, w')"
  | (fail) w' where "placeBoat env wp land lake info w = Inr (False, info, w')"
proof (cases "placeBoat env wp land lake info w")
  case (Inl e)
  then show ?thesis by (rule err)
next
  case (Inr x)
  obtain b r w' where x: "x = (b, r, w')" by (cases x)
  show ?thesis
  proof (cases b)
    case True
    with Inr x show ?thesis by (intro ok) simp
  next
    case False
    have "placeBoat env wp land lake info w = rebase info (placeBoat env wp land lake info w)"
      by (rule placeBoat_info)
    with Inr x False have "r = info" by (simp add: rebase_def)
    with Inr x False show ?thesis by (intro fail) simp
  qed
qed

lemma placeShipyard_cases:
  obtains (err) e where "placeShipyard env wp land lake g info w = Inl e"
  | (ok) r w' where "placeShipyard env wp land lake g info w = Inr (True, r, w')"
  | (fail) w' where "placeShipyard env wp land lake g info w = Inr (False, info, w')"
proof (cases "placeShipyard env wp land lake g info w")
  case (Inl e)
  then show ?thesis by (rule err)
next
  case (Inr x)
  obtain b r w' where x: "x = (b, r, w')" by (cases x)
  show ?thesis
  proof (cases b)
    case True
    with Inr x show ?thesis by (intro ok) simp
  next
    case False
    have "placeShipyard env wp land lake g info w
            = rebase info (placeShipyard env wp land lake g info w)"
      by (rule placeShipyard_info)
    with Inr x False have "r = info" by (simp add: rebase_def)
    with Inr x False show ?thesis by (intro fail) simp
  qed
qed

lemma placeBoat_write:
  "placeBoat env wp land lake i w = Inr (b, r, w') \<Longrightarrow>
   placeBoat env wp land lake j w = Inr (b, if b then r else j, w')"
  using placeBoat_info [of env wp land lake j w i] by (simp add: rebase_def)

lemma placeShipyard_write:
  "placeShipyard env wp land lake g i w = Inr (b, r, w') \<Longrightarrow>
   placeShipyard env wp land lake g j w = Inr (b, if b then r else j, w')"
  using placeShipyard_info [of env wp land lake g j w i] by (simp add: rebase_def)

lemma placeBoat_write_error:
  "placeBoat env wp land lake i w = Inl e \<Longrightarrow> placeBoat env wp land lake j w = Inl e"
  using placeBoat_info [of env wp land lake j w i] by (simp add: rebase_def)

lemma placeShipyard_write_error:
  "placeShipyard env wp land lake g i w = Inl e \<Longrightarrow> placeShipyard env wp land lake g j w = Inl e"
  using placeShipyard_info [of env wp land lake g j w i] by (simp add: rebase_def)

section \<open>The rounds of waterRoute that place nothing\<close>

lemma routeLake_small:
  "nzCount lake dst \<Longrightarrow> dst \<in> keepConnections lake \<Longrightarrow> length (remdups (area lake)) < 25 \<Longrightarrow>
   routeLake env wp dst lake (result, logs, w) = Inr (result, logs @ [skipLine dst], w)"
  by (simp add: routeLake_def skipLine_def)

lemma routeLake_not_bordering:
  "\<not> nzCount lake dst \<Longrightarrow> routeLake env wp dst lake st = Inr st"
  by (cases st) (simp add: routeLake_def)

lemma borderOf_not_bordering: "\<not> nzCount lake dst \<Longrightarrow> borderOf lake dst = []"
  by (simp add: nzCount_def borderOf_def)

lemma routeLake_sever_state:
  assumes "nzCount lake dst" and "dst \<notin> keepConnections lake"
  shows "routeLake env wp dst lake (result, logs, w) =
     Inr (result, logs,
          updateZone dst (\<lambda>z. z\<lparr>areaPossible := subtract (areaPossible z) (borderOf lake dst)\<rparr>)
            (blockBorder (borderOf lake dst) w))"
  using assms by (simp add: routeLake_def)

section \<open>waterRoute: a connection that is not kept\<close>

lemma blockBorder_occupied:
  "occupied (blockBorder ts w) t =
     (if t \<in> set ts \<and> occupied w t = POSSIBLE then BLOCKED else occupied w t)"
  unfolding blockBorder_def
  by (induction ts arbitrary: w) (auto simp: isPossible_def setOccupied_def)

lemma blockBorder_frame:
  "zones (blockBorder ts w) = zones w \<and> ext (blockBorder ts w) = ext w
   \<and> isOnMap (blockBorder ts w) = isOnMap w \<and> getZoneID (blockBorder ts w) = getZoneID w"
  unfolding blockBorder_def
  by (induction ts arbitrary: w) (auto simp: isPossible_def setOccupied_def)

lemma routeLoop_sever:
  "\<forall>l \<in> set ls. nzCount l dst \<longrightarrow> dst \<notin> keepConnections l \<Longrightarrow>
   \<exists>w'. routeLoop env wp dst ls (result, logs, w) = Inr (result, logs, w')
     \<and> (\<forall>t. occupied w' t =
            (if t \<in> (\<Union>l \<in> set ls. set (borderOf l dst)) \<and> occupied w t = POSSIBLE
             then BLOCKED else occupied w t))
     \<and> set (areaPossible (zones w' dst))
         = set (areaPossible (zones w dst)) - (\<Union>l \<in> set ls. set (borderOf l dst))
     \<and> (\<forall>z. z \<noteq> dst \<longrightarrow> zones w' z = zones w z)
     \<and> ext w' = ext w"
proof (induction ls arbitrary: w)
  case Nil
  then show ?case by simp
next
  case (Cons l ls)
  then have rest: "\<forall>l \<in> set ls. nzCount l dst \<longrightarrow> dst \<notin> keepConnections l" by simp
  let ?b = "borderOf l dst"
  let ?w1 = "updateZone dst (\<lambda>z. z\<lparr>areaPossible := subtract (areaPossible z) ?b\<rparr>)
               (blockBorder ?b w)"
  have step: "routeLake env wp dst l (result, logs, w) = Inr (result, logs, ?w1)"
  proof (cases "nzCount l dst")
    case True
    with Cons.prems have "dst \<notin> keepConnections l" by simp
    with True show ?thesis by (rule routeLake_sever_state)
  next
    case False
    then have b: "?b = []" by (rule borderOf_not_bordering)
    have "?w1 = w" unfolding b by (simp add: updateZone_def blockBorder_def subtract_def)
    with False show ?thesis by (simp add: routeLake_not_bordering)
  qed
  have o1: "occupied ?w1 t = (if t \<in> set ?b \<and> occupied w t = POSSIBLE then BLOCKED
                              else occupied w t)" for t
    by (simp add: updateZone_def blockBorder_occupied)
  have a1: "set (areaPossible (zones ?w1 dst)) = set (areaPossible (zones w dst)) - set ?b"
    by (simp add: updateZone_def blockBorder_frame set_subtract)
  have z1: "z \<noteq> dst \<Longrightarrow> zones ?w1 z = zones w z" for z
    by (simp add: updateZone_def blockBorder_frame)
  have e1: "ext ?w1 = ext w" by (simp add: updateZone_def blockBorder_frame)
  from Cons.IH [OF rest, of ?w1] obtain w' where
    w': "routeLoop env wp dst ls (result, logs, ?w1) = Inr (result, logs, w')"
    and o: "\<forall>t. occupied w' t =
            (if t \<in> (\<Union>l \<in> set ls. set (borderOf l dst)) \<and> occupied ?w1 t = POSSIBLE
             then BLOCKED else occupied ?w1 t)"
    and a: "set (areaPossible (zones w' dst))
         = set (areaPossible (zones ?w1 dst)) - (\<Union>l \<in> set ls. set (borderOf l dst))"
    and z: "\<forall>z. z \<noteq> dst \<longrightarrow> zones w' z = zones ?w1 z"
    and e: "ext w' = ext ?w1"
    by blast
  show ?case
  proof (intro exI conjI)
    show "routeLoop env wp dst (l # ls) (result, logs, w) = Inr (result, logs, w')"
      using step w' by simp
    show "\<forall>t. occupied w' t =
            (if t \<in> (\<Union>l \<in> set (l # ls). set (borderOf l dst)) \<and> occupied w t = POSSIBLE
             then BLOCKED else occupied w t)"
      using o o1 by auto
    show "set (areaPossible (zones w' dst))
         = set (areaPossible (zones w dst)) - (\<Union>l \<in> set (l # ls). set (borderOf l dst))"
      using a a1 by auto
    show "\<forall>z. z \<noteq> dst \<longrightarrow> zones w' z = zones w z" using z z1 by simp
    show "ext w' = ext w" using e e1 by simp
  qed
qed

text \<open>
  C2, as the claim states it, fails. \<open>waterRoute\<close> sets a border tile to \<open>BLOCKED\<close> only if
  the tile is \<open>POSSIBLE\<close>. In the pond scenario the tile \<open>(1, 1, 0)\<close> is in the lake's border
  to the zone 1, whose connection is not kept, and it is \<open>FREE\<close>: after \<open>waterRoute\<close> for the
  zone 1, which has a \<open>WaterAdopter\<close> with a coast tile, it is still \<open>FREE\<close>, not \<open>BLOCKED\<close>.
\<close>

theorem waterRoute_sever_counterexample:
  "nzCount pondLake 1 \<and> 1 \<notin> keepConnections pondLake
   \<and> (1, 1, 0) \<in> set (borderOf pondLake 1)
   \<and> waterAdopter (zones severWorld 1) = Some [(1, 0, 0)]
   \<and> occupied severWorld (1, 1, 0) = FREE
   \<and> \<not> isl (waterRoute demoEnv severProxy 1 severWorld)
   \<and> occupied (snd (snd (projr (waterRoute demoEnv severProxy 1 severWorld)))) (1, 1, 0) = FREE
   \<and> occupied (snd (snd (projr (waterRoute demoEnv severProxy 1 severWorld)))) (1, 1, 0) \<noteq> BLOCKED"
  by code_simp

text \<open>
  C2, amended. For a lake that borders the zone \<open>dst\<close> and does not keep the connection
  to it, the round of the loop of \<open>waterRoute\<close> for this lake sets to \<open>BLOCKED\<close> exactly the
  tiles of the lake's border to \<open>dst\<close> that are \<open>POSSIBLE\<close> and leaves the occupancy of
  every other tile as it is, removes all the tiles of the border from the possible area of
  \<open>dst\<close>, and places no object: the \<open>RouteInfo\<close>, the log, the other zones and the state of
  the collaborators are unchanged, and the outcome is the same whatever the collaborators are.
  When \<open>dst\<close> has a \<open>WaterAdopter\<close> with coast tiles and no lake bordering \<open>dst\<close> keeps
  the connection, \<open>waterRoute\<close> as a whole does this for the borders of all the lakes and
  returns the empty \<open>RouteInfo\<close>.
\<close>

theorem waterRoute_sever:
  "(nzCount lake dst \<and> dst \<notin> keepConnections lake \<longrightarrow>
      (\<exists>w'. routeLake env wp dst lake (result, logs, w) = Inr (result, logs, w')
         \<and> (\<forall>t. occupied w' t =
                (if t \<in> set (borderOf lake dst) \<and> occupied w t = POSSIBLE then BLOCKED
                 else occupied w t))
         \<and> set (areaPossible (zones w' dst))
             = set (areaPossible (zones w dst)) - set (borderOf lake dst)
         \<and> (\<forall>z. z \<noteq> dst \<longrightarrow> zones w' z = zones w z)
         \<and> ext w' = ext w
         \<and> (\<forall>env'::('o, 'p, 'x) Env. routeLake env' wp dst lake (result, logs, w)
                = routeLake env wp dst lake (result, logs, w))))
   \<and> (waterAdopter (zones w dst) = Some coastTiles \<and> coastTiles \<noteq> []
        \<and> (\<forall>l \<in> set (lakes wp). nzCount l dst \<longrightarrow> dst \<notin> keepConnections l) \<longrightarrow>
      (\<exists>w'. waterRoute env wp dst w = Inr (emptyRouteInfo, [], w')
         \<and> (\<forall>t. occupied w' t =
                (if t \<in> (\<Union>l \<in> set (lakes wp). set (borderOf l dst)) \<and> occupied w t = POSSIBLE
                 then BLOCKED else occupied w t))
         \<and> set (areaPossible (zones w' dst))
             = set (areaPossible (zones w dst)) - (\<Union>l \<in> set (lakes wp). set (borderOf l dst))
         \<and> (\<forall>z. z \<noteq> dst \<longrightarrow> zones w' z = zones w z)
         \<and> ext w' = ext w))"
proof (intro conjI impI)
  assume "nzCount lake dst \<and> dst \<notin> keepConnections lake"
  then show "\<exists>w'. routeLake env wp dst lake (result, logs, w) = Inr (result, logs, w')
         \<and> (\<forall>t. occupied w' t =
                (if t \<in> set (borderOf lake dst) \<and> occupied w t = POSSIBLE then BLOCKED
                 else occupied w t))
         \<and> set (areaPossible (zones w' dst))
             = set (areaPossible (zones w dst)) - set (borderOf lake dst)
         \<and> (\<forall>z. z \<noteq> dst \<longrightarrow> zones w' z = zones w z)
         \<and> ext w' = ext w
         \<and> (\<forall>env'::('o, 'p, 'x) Env. routeLake env' wp dst lake (result, logs, w)
                = routeLake env wp dst lake (result, logs, w))"
    by (simp add: routeLake_def updateZone_def blockBorder_occupied blockBorder_frame set_subtract)
next
  assume a: "waterAdopter (zones w dst) = Some coastTiles \<and> coastTiles \<noteq> []
        \<and> (\<forall>l \<in> set (lakes wp). nzCount l dst \<longrightarrow> dst \<notin> keepConnections l)"
  then have "waterRoute env wp dst w = routeLoop env wp dst (lakes wp) (emptyRouteInfo, [], w)"
    by (simp add: waterRoute_def)
  moreover from a have "\<forall>l \<in> set (lakes wp). nzCount l dst \<longrightarrow> dst \<notin> keepConnections l"
    by simp
  ultimately show "\<exists>w'. waterRoute env wp dst w = Inr (emptyRouteInfo, [], w')
         \<and> (\<forall>t. occupied w' t =
                (if t \<in> (\<Union>l \<in> set (lakes wp). set (borderOf l dst)) \<and> occupied w t = POSSIBLE
                 then BLOCKED else occupied w t))
         \<and> set (areaPossible (zones w' dst))
             = set (areaPossible (zones w dst)) - (\<Union>l \<in> set (lakes wp). set (borderOf l dst))
         \<and> (\<forall>z. z \<noteq> dst \<longrightarrow> zones w' z = zones w z)
         \<and> ext w' = ext w"
    using routeLoop_sever [of "lakes wp" dst env wp emptyRouteInfo "[]" w] by simp
qed

theorem waterRoute_sever_witness:
  "nzCount pondLake 1 \<and> 1 \<notin> keepConnections pondLake
   \<and> waterAdopter (zones severWorld 1) = Some [(1, 0, 0)]
   \<and> \<not> isl (waterRoute demoEnv severProxy 1 severWorld)
   \<and> fst (projr (waterRoute demoEnv severProxy 1 severWorld)) = emptyRouteInfo
   \<and> occupied (snd (snd (projr (waterRoute demoEnv severProxy 1 severWorld)))) (1, 0, 0) = BLOCKED
   \<and> occupied (snd (snd (projr (waterRoute demoEnv severProxy 1 severWorld)))) (1, 1, 0) = FREE
   \<and> set (areaPossible (zones (snd (snd (projr (waterRoute demoEnv severProxy 1 severWorld)))) 1))
       = {}
   \<and> ext (snd (snd (projr (waterRoute demoEnv severProxy 1 severWorld)))) = []
   \<and> routeLake demoEnv severProxy 1 pondLake (emptyRouteInfo, [], severWorld)
       = waterRoute demoEnv severProxy 1 severWorld"
proof -
  let ?lake = "pondLake"
  have h: "nzCount ?lake 1 \<and> 1 \<notin> keepConnections ?lake" by code_simp
  have c: "waterAdopter (zones severWorld 1) = Some [(1, 0, 0)]" by code_simp
  have l: "lakes severProxy = [?lake]" by (simp add: severProxy_def)
  have b: "set (borderOf ?lake 1) = {(1, 0, 0), (1, 1, 0), (1, - 1, 0)}"
    by code_simp
  have o: "occupied severWorld (1, 0, 0) = POSSIBLE" "occupied severWorld (1, 1, 0) = FREE"
    "set (areaPossible (zones severWorld 1)) = {(1, 0, 0), (1, 1, 0)}" "ext severWorld = []"
    by code_simp+
  note t = waterRoute_sever [where lake = ?lake and dst = 1 and env = demoEnv and wp = severProxy
      and result = emptyRouteInfo and logs = "[]" and w = severWorld and coastTiles = "[(1, 0, 0)]"]
  from t [THEN conjunct1] h obtain w1 where w1:
    "routeLake demoEnv severProxy 1 ?lake (emptyRouteInfo, [], severWorld)
       = Inr (emptyRouteInfo, [], w1)"
    by blast
  have all: "\<forall>l \<in> set (lakes severProxy). nzCount l 1 \<longrightarrow> 1 \<notin> keepConnections l"
    using h by (simp add: l)
  from t [THEN conjunct2] c all obtain w' where w':
    "waterRoute demoEnv severProxy 1 severWorld = Inr (emptyRouteInfo, [], w')"
    "\<forall>t. occupied w' t =
       (if t \<in> (\<Union>l \<in> set (lakes severProxy). set (borderOf l 1)) \<and> occupied severWorld t = POSSIBLE
        then BLOCKED else occupied severWorld t)"
    "set (areaPossible (zones w' 1))
       = set (areaPossible (zones severWorld 1)) - (\<Union>l \<in> set (lakes severProxy). set (borderOf l 1))"
    "ext w' = ext severWorld"
    by blast
  have u: "(\<Union>l \<in> set (lakes severProxy). set (borderOf l 1)) = {(1, 0, 0), (1, 1, 0), (1, - 1, 0)}"
    using b by (simp add: l)
  have "occupied w' (1, 0, 0) = BLOCKED" "occupied w' (1, 1, 0) = FREE"
    "set (areaPossible (zones w' 1)) = {}" "ext w' = []"
    using w'(2,3,4) o unfolding u by auto
  moreover have "routeLake demoEnv severProxy 1 ?lake (emptyRouteInfo, [], severWorld)
       = waterRoute demoEnv severProxy 1 severWorld"
    by (simp add: waterRoute_def l c split: sum.splits)
  ultimately show ?thesis using h c w'(1) by simp
qed

section \<open>waterRoute: a lake below the size threshold\<close>

lemma routeLoop_small:
  "\<forall>l \<in> set ls. nzCount l dst \<longrightarrow> dst \<in> keepConnections l \<and> length (remdups (area l)) < 25 \<Longrightarrow>
   routeLoop env wp dst ls (result, logs, w) =
     Inr (result, logs @ map (\<lambda>l. skipLine dst) (filter (\<lambda>l. nzCount l dst) ls), w)"
proof (induction ls arbitrary: logs)
  case Nil
  then show ?case by simp
next
  case (Cons l ls)
  then have IH: "\<And>logs. routeLoop env wp dst ls (result, logs, w) =
     Inr (result, logs @ map (\<lambda>l. skipLine dst) (filter (\<lambda>l. nzCount l dst) ls), w)"
    by simp
  show ?case
  proof (cases "nzCount l dst")
    case True
    with Cons.prems have "dst \<in> keepConnections l" "length (remdups (area l)) < 25" by auto
    with True show ?thesis by (simp add: routeLake_small IH)
  next
    case False
    then show ?thesis by (simp add: routeLake_not_bordering IH)
  qed
qed

text \<open>
  C3. For a lake that keeps the connection to the zone \<open>dst\<close> and has fewer than 25 tiles,
  the round of \<open>waterRoute\<close> for this lake logs that the lake is skipped and changes neither
  the \<open>RouteInfo\<close> nor the state; no error arises. For every lake of fewer than 25 tiles the
  outcome of the round is the same whatever the collaborators are, so no placement is
  attempted. When every lake bordering \<open>dst\<close> is such a lake, \<open>waterRoute\<close> returns the empty
  \<open>RouteInfo\<close> and the state it was given, with nothing but such lines in the log.
\<close>

theorem waterRoute_small_lake:
  "(nzCount lake dst \<and> dst \<in> keepConnections lake \<and> length (remdups (area lake)) < 25 \<longrightarrow>
      routeLake env wp dst lake (result, logs, w)
        = Inr (result, logs @ [(INFO, ''Skipping very small lake at zone %d'', dst)], w))
   \<and> (length (remdups (area lake)) < 25 \<longrightarrow>
        (\<forall>env'::('o, 'p, 'x) Env. routeLake env' wp dst lake (result, logs, w)
            = routeLake env wp dst lake (result, logs, w)))
   \<and> ((\<forall>l \<in> set (lakes wp). nzCount l dst \<longrightarrow>
           dst \<in> keepConnections l \<and> length (remdups (area l)) < 25) \<longrightarrow>
        (\<exists>logs'. waterRoute env wp dst w = Inr (emptyRouteInfo, logs', w)
           \<and> length logs' \<le> length (lakes wp) \<and> set logs' \<subseteq> {(INFO, ''Skipping very small lake at zone %d'', dst)}))"
proof (intro conjI impI)
  assume "nzCount lake dst \<and> dst \<in> keepConnections lake \<and> length (remdups (area lake)) < 25"
  then show "routeLake env wp dst lake (result, logs, w)
        = Inr (result, logs @ [(INFO, ''Skipping very small lake at zone %d'', dst)], w)"
    by (simp add: routeLake_def)
next
  assume "length (remdups (area lake)) < 25"
  then show "\<forall>env'::('o, 'p, 'x) Env. routeLake env' wp dst lake (result, logs, w)
            = routeLake env wp dst lake (result, logs, w)"
    by (simp add: routeLake_def)
next
  assume a: "\<forall>l \<in> set (lakes wp). nzCount l dst \<longrightarrow>
           dst \<in> keepConnections l \<and> length (remdups (area l)) < 25"
  let ?logs = "map (\<lambda>l. skipLine dst) (filter (\<lambda>l. nzCount l dst) (lakes wp))"
  have "waterRoute env wp dst w = Inr (emptyRouteInfo, [], w)
        \<or> waterRoute env wp dst w = Inr (emptyRouteInfo, ?logs, w)"
    using routeLoop_small [OF a, of env wp emptyRouteInfo "[]" w]
    by (auto simp: waterRoute_def split: option.splits)
  moreover have "length ?logs \<le> length (lakes wp)" by simp
  moreover have "set ?logs \<subseteq> {(INFO, ''Skipping very small lake at zone %d'', dst)}"
    by (auto simp: skipLine_def)
  ultimately show "\<exists>logs'. waterRoute env wp dst w = Inr (emptyRouteInfo, logs', w)
           \<and> length logs' \<le> length (lakes wp) \<and> set logs' \<subseteq> {(INFO, ''Skipping very small lake at zone %d'', dst)}"
    by (metis empty_subsetI list.size(3) set_empty2 zero_le)
qed

theorem waterRoute_small_lake_witness:
  "nzCount smallLake 1 \<and> 1 \<in> keepConnections smallLake
   \<and> length (remdups (area smallLake)) = 24
   \<and> routeLake demoEnv smallProxy 1 smallLake (emptyRouteInfo, [], coastWorld)
       = Inr (emptyRouteInfo, [(INFO, ''Skipping very small lake at zone %d'', 1)], coastWorld)
   \<and> routeLake blockedEnv smallProxy 1 smallLake (emptyRouteInfo, [], coastWorld)
       = routeLake demoEnv smallProxy 1 smallLake (emptyRouteInfo, [], coastWorld)
   \<and> \<not> isl (waterRoute demoEnv smallProxy 1 coastWorld)
   \<and> fst (projr (waterRoute demoEnv smallProxy 1 coastWorld)) = emptyRouteInfo
   \<and> snd (snd (projr (waterRoute demoEnv smallProxy 1 coastWorld))) = coastWorld"
proof -
  have h: "nzCount smallLake 1 \<and> 1 \<in> keepConnections smallLake
      \<and> length (remdups (area smallLake)) < 25"
    by code_simp
  have n: "length (remdups (area smallLake)) = 24" by code_simp
  have a: "\<forall>l \<in> set (lakes smallProxy). nzCount l 1 \<longrightarrow>
      1 \<in> keepConnections l \<and> length (remdups (area l)) < 25"
    using h by (simp add: smallProxy_def)
  note t = waterRoute_small_lake [where lake = smallLake and dst = 1 and env = demoEnv
      and wp = smallProxy and result = emptyRouteInfo and logs = "[]" and w = coastWorld]
  from t [THEN conjunct1] h
  have 1: "routeLake demoEnv smallProxy 1 smallLake (emptyRouteInfo, [], coastWorld)
       = Inr (emptyRouteInfo, [(INFO, ''Skipping very small lake at zone %d'', 1)], coastWorld)"
    by simp
  from t [THEN conjunct2, THEN conjunct1] h
  have 2: "routeLake blockedEnv smallProxy 1 smallLake (emptyRouteInfo, [], coastWorld)
       = routeLake demoEnv smallProxy 1 smallLake (emptyRouteInfo, [], coastWorld)"
    by blast
  from t [THEN conjunct2, THEN conjunct2] a obtain logs' where
    "waterRoute demoEnv smallProxy 1 coastWorld = Inr (emptyRouteInfo, logs', coastWorld)"
    by blast
  with h n 1 2 show ?thesis by simp
qed

section \<open>waterRoute: the choice of the strategy\<close>

lemma startOrTown_code:
  "startOrTown z = (getType z = PLAYER_START \<or> getType z = CPU_START
      \<or> (case townPlacer z of None \<Rightarrow> 0 | Some m \<Rightarrow> m) \<noteq> 0)"
  by (auto simp: startOrTown_def split: option.splits)

text \<open>
  C4. For a lake of at least 25 tiles that keeps the connection to the zone \<open>dst\<close>: when
  \<open>dst\<close> is a start zone of a player or of the computer, or hosts at least one town, the
  round of \<open>waterRoute\<close> is the shipyard placement, followed by the boat placement (from the
  state the shipyard search left) exactly when the shipyard placement returned false; when
  the shipyard was placed, the outcome does not depend on the collaborators that only the
  boat placement calls. In every other case the round is the boat placement on the state as
  it was, and its outcome does not depend on the collaborators that only the shipyard
  placement calls.
\<close>

theorem waterRoute_strategy:
  assumes "nzCount lake dst" and "dst \<in> keepConnections lake"
    and "25 \<le> length (remdups (area lake))"
  shows "(startOrTown (zones w dst) \<longrightarrow>
          routeLake env wp dst lake (result, logs, w) =
            (case placeShipyard env wp dst lake (shipyardGuard env) result w of
               Inl e \<Rightarrow> Inl e
             | Inr (shipyardPlaced, result1, w1) \<Rightarrow>
                 if shipyardPlaced then
                   Inr (result1,
                        logs @ [(INFO, ''Shipyard successfully placed at zone %d'', dst)], w1)
                 else
                   (case placeBoat env wp dst lake result1 w1 of
                      Inl e \<Rightarrow> Inl e
                    | Inr (boatPlaced, result2, w2) \<Rightarrow>
                        Inr (result2,
                             logs @ [(WARN, ''Shipyard placement failed, trying boat at zone %d'', dst),
                                     if boatPlaced
                                     then (WARN, ''Boat successfully placed at zone %d'', dst)
                                     else (ERROR, ''Boat placement failed at zone %d'', dst)],
                             w2)))
          \<and> (\<forall>env' result1 w1. sameShipyardOps env env'
                \<and> placeShipyard env wp dst lake (shipyardGuard env) result w
                    = Inr (True, result1, w1) \<longrightarrow>
              routeLake env' wp dst lake (result, logs, w)
                = routeLake env wp dst lake (result, logs, w)))
     \<and> (\<not> startOrTown (zones w dst) \<longrightarrow>
          routeLake env wp dst lake (result, logs, w) =
            (case placeBoat env wp dst lake result w of
               Inl e \<Rightarrow> Inl e
             | Inr (boatPlaced, result1, w1) \<Rightarrow>
                 Inr (result1,
                      logs @ [if boatPlaced
                              then (INFO, ''Boat successfully placed at zone %d'', dst)
                              else (ERROR, ''Boat placement failed at zone %d'', dst)],
                      w1))
          \<and> (\<forall>env'. sameBoatOps env env' \<longrightarrow>
              routeLake env' wp dst lake (result, logs, w)
                = routeLake env wp dst lake (result, logs, w)))"
proof (intro conjI impI allI)
  assume s: "startOrTown (zones w dst)"
  then show "routeLake env wp dst lake (result, logs, w) =
            (case placeShipyard env wp dst lake (shipyardGuard env) result w of
               Inl e \<Rightarrow> Inl e
             | Inr (shipyardPlaced, result1, w1) \<Rightarrow>
                 if shipyardPlaced then
                   Inr (result1,
                        logs @ [(INFO, ''Shipyard successfully placed at zone %d'', dst)], w1)
                 else
                   (case placeBoat env wp dst lake result1 w1 of
                      Inl e \<Rightarrow> Inl e
                    | Inr (boatPlaced, result2, w2) \<Rightarrow>
                        Inr (result2,
                             logs @ [(WARN, ''Shipyard placement failed, trying boat at zone %d'', dst),
                                     if boatPlaced
                                     then (WARN, ''Boat successfully placed at zone %d'', dst)
                                     else (ERROR, ''Boat placement failed at zone %d'', dst)],
                             w2)))"
    using assms unfolding startOrTown_code
    by (simp add: routeLake_def split: sum.splits bool.splits)
  fix env' result1 w1
  assume a: "sameShipyardOps env env'
                \<and> placeShipyard env wp dst lake (shipyardGuard env) result w
                    = Inr (True, result1, w1)"
  then have g: "shipyardGuard env' = shipyardGuard env" by (simp add: sameShipyardOps_def)
  from a have ss: "sameShipyardOps env env'" by simp
  from a have "placeShipyard env' wp dst lake (shipyardGuard env) result w = Inr (True, result1, w1)"
    by (simp add: placeShipyard_sameShipyardOps [OF ss])
  with a s assms show "routeLake env' wp dst lake (result, logs, w)
                = routeLake env wp dst lake (result, logs, w)"
    unfolding startOrTown_code by (simp add: routeLake_def g)
next
  assume s: "\<not> startOrTown (zones w dst)"
  then show "routeLake env wp dst lake (result, logs, w) =
            (case placeBoat env wp dst lake result w of
               Inl e \<Rightarrow> Inl e
             | Inr (boatPlaced, result1, w1) \<Rightarrow>
                 Inr (result1,
                      logs @ [if boatPlaced
                              then (INFO, ''Boat successfully placed at zone %d'', dst)
                              else (ERROR, ''Boat placement failed at zone %d'', dst)],
                      w1))"
    using assms unfolding startOrTown_code
    by (simp add: routeLake_def split: sum.splits bool.splits)
  fix env'
  assume "sameBoatOps env env'"
  with s assms show "routeLake env' wp dst lake (result, logs, w)
                = routeLake env wp dst lake (result, logs, w)"
    unfolding startOrTown_code by (simp add: routeLake_def placeBoat_sameBoatOps)
qed

theorem waterRoute_strategy_witness:
  "nzCount westLake 1 \<and> 1 \<in> keepConnections westLake
   \<and> nzCount westLake 2 \<and> 2 \<in> keepConnections westLake
   \<and> 25 \<le> length (remdups (area westLake))
   \<and> startOrTown (zones coastWorld 1) \<and> \<not> startOrTown (zones coastWorld 2)
   \<and> fst (snd (projr (routeLake demoEnv coastProxy 1 westLake (emptyRouteInfo, [], coastWorld))))
       = [(INFO, ''Shipyard successfully placed at zone %d'', 1)]
   \<and> fst (snd (projr (routeLake demoEnv coastProxy 2 westLake (emptyRouteInfo, [], coastWorld))))
       = [(INFO, ''Boat successfully placed at zone %d'', 2)]
   \<and> fst (snd (projr (routeLake blockedEnv coastProxy 1 westLake (emptyRouteInfo, [], coastWorld))))
       = [(WARN, ''Shipyard placement failed, trying boat at zone %d'', 1),
          (ERROR, ''Boat placement failed at zone %d'', 1)]"
proof -
  have h1: "nzCount westLake 1" and k1: "1 \<in> keepConnections westLake"
    and h2: "nzCount westLake 2" and k2: "2 \<in> keepConnections westLake"
    and n: "25 \<le> length (remdups (area westLake))"
    and s1: "startOrTown (zones coastWorld 1)" and s2: "\<not> startOrTown (zones coastWorld 2)"
    by code_simp+
  have p1: "placeShipyard demoEnv coastProxy 1 westLake (shipyardGuard demoEnv) emptyRouteInfo
              coastWorld
            = Inr (True, fst (snd (projr (placeShipyard demoEnv coastProxy 1 westLake
                      (shipyardGuard demoEnv) emptyRouteInfo coastWorld))),
                   snd (snd (projr (placeShipyard demoEnv coastProxy 1 westLake
                      (shipyardGuard demoEnv) emptyRouteInfo coastWorld))))"
  proof -
    have "\<not> isl (placeShipyard demoEnv coastProxy 1 westLake (shipyardGuard demoEnv)
                   emptyRouteInfo coastWorld)
        \<and> fst (projr (placeShipyard demoEnv coastProxy 1 westLake (shipyardGuard demoEnv)
                   emptyRouteInfo coastWorld))"
      by code_simp
    then show ?thesis
      by (cases "placeShipyard demoEnv coastProxy 1 westLake (shipyardGuard demoEnv)
                   emptyRouteInfo coastWorld") auto
  qed
  have p2: "placeBoat demoEnv coastProxy 2 westLake emptyRouteInfo coastWorld
            = Inr (True, fst (snd (projr (placeBoat demoEnv coastProxy 2 westLake
                      emptyRouteInfo coastWorld))),
                   snd (snd (projr (placeBoat demoEnv coastProxy 2 westLake
                      emptyRouteInfo coastWorld))))"
  proof -
    have "\<not> isl (placeBoat demoEnv coastProxy 2 westLake emptyRouteInfo coastWorld)
        \<and> fst (projr (placeBoat demoEnv coastProxy 2 westLake emptyRouteInfo coastWorld))"
      by code_simp
    then show ?thesis
      by (cases "placeBoat demoEnv coastProxy 2 westLake emptyRouteInfo coastWorld") auto
  qed
  from waterRoute_strategy [OF h1 k1 n, of coastWorld demoEnv coastProxy emptyRouteInfo "[]"] s1
  have "routeLake demoEnv coastProxy 1 westLake (emptyRouteInfo, [], coastWorld) =
      (case placeShipyard demoEnv coastProxy 1 westLake (shipyardGuard demoEnv) emptyRouteInfo
              coastWorld of
         Inl e \<Rightarrow> Inl e
       | Inr (shipyardPlaced, result1, w1) \<Rightarrow>
           if shipyardPlaced then
             Inr (result1, [] @ [(INFO, ''Shipyard successfully placed at zone %d'', 1)], w1)
           else
             (case placeBoat demoEnv coastProxy 1 westLake result1 w1 of
                Inl e \<Rightarrow> Inl e
              | Inr (boatPlaced, result2, w2) \<Rightarrow>
                  Inr (result2,
                       [] @ [(WARN, ''Shipyard placement failed, trying boat at zone %d'', 1),
                             if boatPlaced
                             then (WARN, ''Boat successfully placed at zone %d'', 1)
                             else (ERROR, ''Boat placement failed at zone %d'', 1)],
                       w2)))"
    by blast
  then have r1: "fst (snd (projr (routeLake demoEnv coastProxy 1 westLake
                    (emptyRouteInfo, [], coastWorld))))
       = [(INFO, ''Shipyard successfully placed at zone %d'', 1)]"
    by (subst (asm) p1) (simp add: case_prod_beta)
  from waterRoute_strategy [OF h2 k2 n, of coastWorld demoEnv coastProxy emptyRouteInfo "[]"] s2
  have "routeLake demoEnv coastProxy 2 westLake (emptyRouteInfo, [], coastWorld) =
      (case placeBoat demoEnv coastProxy 2 westLake emptyRouteInfo coastWorld of
         Inl e \<Rightarrow> Inl e
       | Inr (boatPlaced, result1, w1) \<Rightarrow>
           Inr (result1,
                [] @ [if boatPlaced
                      then (INFO, ''Boat successfully placed at zone %d'', 2)
                      else (ERROR, ''Boat placement failed at zone %d'', 2)],
                w1))"
    by blast
  then have r2: "fst (snd (projr (routeLake demoEnv coastProxy 2 westLake
                    (emptyRouteInfo, [], coastWorld))))
       = [(INFO, ''Boat successfully placed at zone %d'', 2)]"
    by (subst (asm) p2) (simp add: case_prod_beta)
  have r3: "fst (snd (projr (routeLake blockedEnv coastProxy 1 westLake
                    (emptyRouteInfo, [], coastWorld))))
       = [(WARN, ''Shipyard placement failed, trying boat at zone %d'', 1),
          (ERROR, ''Boat placement failed at zone %d'', 1)]"
    by code_simp
  from h1 k1 h2 k2 n s1 s2 r1 r2 r3 show ?thesis by simp
qed

section \<open>The lakes that collectLakes builds\<close>

text \<open>The components partition the area, and none is empty.\<close>

lemma growComponent_contains: "set grown \<subseteq> set (growComponent rest grown)"
proof (induction rest grown rule: growComponent.induct)
  case (1 rest grown)
  show ?case
  proof (cases "filter (\<lambda>t. t \<notin> set grown \<and> intersect (neighbours t) grown \<noteq> []) (remdups rest) = []")
    case True
    then show ?thesis by (subst growComponent.simps) simp
  next
    case False
    from 1 [OF refl False] show ?thesis
      using False by (subst growComponent.simps) (auto simp: Let_def)
  qed
qed

lemma growComponent_within: "set (growComponent rest grown) \<subseteq> set rest \<union> set grown"
proof (induction rest grown rule: growComponent.induct)
  case (1 rest grown)
  show ?case
  proof (cases "filter (\<lambda>t. t \<notin> set grown \<and> intersect (neighbours t) grown \<noteq> []) (remdups rest) = []")
    case True
    then show ?thesis by (subst growComponent.simps) simp
  next
    case False
    from 1 [OF refl False] show ?thesis
      using False by (subst growComponent.simps) (auto simp: Let_def)
  qed
qed

lemma connectedAreas_nonempty: "c \<in> set (connectedAreas a b) \<Longrightarrow> c \<noteq> []"
proof (induction a b rule: connectedAreas.induct)
  case (1 b)
  then show ?case by simp
next
  case (2 t ts b)
  have "t \<in> set (growComponent (t # ts) [t])"
    using growComponent_contains [of "[t]" "t # ts"] by simp
  with 2 show ?case by (auto simp: Let_def)
qed

lemma connectedAreas_union: "\<Union> (set ` set (connectedAreas a b)) = set a"
proof (induction a b rule: connectedAreas.induct)
  case (1 b)
  then show ?case by simp
next
  case (2 t ts b)
  let ?c = "growComponent (t # ts) [t]"
  have "set ?c \<subseteq> set (t # ts)" using growComponent_within [of "t # ts" "[t]"] by auto
  moreover from 2 [OF refl]
  have "\<Union> (set ` set (connectedAreas (subtract (t # ts) ?c) b)) = set (t # ts) - set ?c"
    by (simp add: set_subtract)
  ultimately show ?case by (auto simp: Let_def)
qed

lemma connectedAreas_disjoint: "disjointAreas (connectedAreas a b)"
proof (induction a b rule: connectedAreas.induct)
  case (1 b)
  then show ?case by simp
next
  case (2 t ts b)
  let ?c = "growComponent (t # ts) [t]"
  have "\<Union> (set ` set (connectedAreas (subtract (t # ts) ?c) b)) = set (t # ts) - set ?c"
    by (simp add: connectedAreas_union set_subtract)
  with 2 [OF refl] show ?case by (auto simp: Let_def)
qed

lemma disjointAreas_nth:
  "disjointAreas cs \<Longrightarrow> i < length cs \<Longrightarrow> j < length cs \<Longrightarrow> i \<noteq> j \<Longrightarrow>
   set (cs ! i) \<inter> set (cs ! j) = {}"
proof (induction cs arbitrary: i j)
  case Nil
  then show ?case by simp
next
  case (Cons c cs)
  show ?case
  proof (cases i)
    case 0
    with Cons.prems obtain j' where j': "j = Suc j'" "j' < length cs" by (cases j) auto
    then have "set (cs ! j') \<subseteq> \<Union> (set ` set cs)" using nth_mem by blast
    with Cons.prems 0 j' show ?thesis by auto
  next
    case (Suc i')
    show ?thesis
    proof (cases j)
      case 0
      from Suc Cons.prems have "i' < length cs" by simp
      then have "set (cs ! i') \<subseteq> \<Union> (set ` set cs)" using nth_mem by blast
      with Cons.prems 0 Suc show ?thesis by auto
    next
      case j: (Suc j')
      with Suc Cons.prems Cons.IH [of i' j'] show ?thesis by auto
    qed
  qed
qed

text \<open>Every distance layer is a non-empty part of the area.\<close>

lemma getBorder_nonempty: "tiles \<noteq> [] \<Longrightarrow> getBorder tiles \<noteq> []"
proof -
  assume ne: "tiles \<noteq> []"
  define m where "m = Max (fst ` set tiles)"
  have "m \<in> fst ` set tiles" unfolding m_def using ne by (intro Max_in) auto
  then obtain y z where yz: "(m, y, z) \<in> set tiles" by force
  have "(m + 1, y, z) \<notin> set tiles"
  proof
    assume "(m + 1, y, z) \<in> set tiles"
    then have "m + 1 \<in> fst ` set tiles" by force
    then have "m + 1 \<le> m" unfolding m_def by (intro Max_ge) auto
    then show False by simp
  qed
  moreover have "(m + 1, y, z) \<in> set (neighbours (m, y, z))"
    by (simp add: neighbours_def dirs_def)
  ultimately have "filter (\<lambda>n. n \<notin> set tiles) (neighbours (m, y, z)) \<noteq> []"
    by (auto simp: filter_empty_conv)
  with yz have "(m, y, z) \<in> set (getBorder tiles)" by (simp add: getBorder_def)
  then show ?thesis by auto
qed

lemma getBorder_subset: "set (getBorder tiles) \<subseteq> set tiles"
  by (auto simp: getBorder_def)

lemma distanceLayers_Nil: "distanceLayers [] = []"
  by (subst distanceLayers.simps) simp

lemma distanceLayers_layer:
  "l \<in> set (distanceLayers a) \<Longrightarrow> l \<noteq> [] \<and> set l \<subseteq> set a"
proof (induction a rule: distanceLayers.induct)
  case (1 tiles)
  show ?case
  proof (cases "tiles = []")
    case True
    with 1 show ?thesis by (simp add: distanceLayers_Nil)
  next
    case False
    from 1(2) False have "l = getBorder tiles
        \<or> l \<in> set (distanceLayers (subtract tiles (getBorder tiles)))"
      by (subst (asm) distanceLayers.simps) auto
    then show ?thesis
    proof
      assume "l = getBorder tiles"
      with False show ?thesis using getBorder_nonempty getBorder_subset by auto
    next
      assume "l \<in> set (distanceLayers (subtract tiles (getBorder tiles)))"
      from 1(1) [OF False this] show ?thesis by (auto simp: set_subtract)
    qed
  qed
qed

lemma distanceLayers_nonempty: "a \<noteq> [] \<Longrightarrow> distanceLayers a \<noteq> []"
  by (subst distanceLayers.simps) simp

lemma deepestTile_layers:
  "a \<noteq> [] \<Longrightarrow> \<exists>t. deepestTile (distanceLayers a) = Inr t
      \<and> t \<in> set (last (distanceLayers a)) \<and> t \<in> set a"
proof -
  assume ne: "a \<noteq> []"
  then have n: "distanceLayers a \<noteq> []" by (rule distanceLayers_nonempty)
  then have "last (distanceLayers a) \<in> set (distanceLayers a)" by simp
  from distanceLayers_layer [OF this]
  have l: "last (distanceLayers a) \<noteq> []" "set (last (distanceLayers a)) \<subseteq> set a" by auto
  then obtain t ts where "last (distanceLayers a) = t # ts" by (cases "last (distanceLayers a)") auto
  with n l show ?thesis
    by (cases "distanceLayers a") (auto simp: deepestTile_def)
qed

lemma deepestTile_hd:
  assumes "c \<noteq> []"
  shows "deepestTile (distanceLayers c) = Inr (hd (last (distanceLayers c)))"
proof -
  from deepestTile_layers [OF assms] obtain t where
    t: "deepestTile (distanceLayers c) = Inr t" by blast
  then show ?thesis
    by (auto simp: deepestTile_def split: list.splits)
qed

lemma deepest_in_layer:
  assumes "c \<noteq> []"
  shows "hd (last (distanceLayers c)) \<in> set (last (distanceLayers c))"
    and "hd (last (distanceLayers c)) \<in> set c"
proof -
  from deepestTile_layers [OF assms] deepestTile_hd [OF assms]
  show "hd (last (distanceLayers c)) \<in> set (last (distanceLayers c))"
    and "hd (last (distanceLayers c)) \<in> set c"
    by auto
qed

text \<open>The loop of \<open>collectLakes\<close> in closed form.\<close>

lemma setFreePaths_same: "setFreePaths z (freePaths (zones w z)) w = w"
  by (simp add: setFreePaths_def)

lemma setFreePaths_twice: "setFreePaths z a (setFreePaths z b w) = setFreePaths z a w"
  by (simp add: setFreePaths_def)

lemma newLake_setFreePaths: "newLake (setFreePaths z free w) c = newLake w c"
  by (simp add: newLake_def setFreePaths_def cong: if_cong)

lemma mark_tiles: "foldl (\<lambda>m t. m(t \<mapsto> k)) m c = (\<lambda>t. if t \<in> set c then Some k else m t)"
  by (induction c arbitrary: m) (auto simp: fun_eq_iff)

lemma collectLake_eq:
  assumes "c \<noteq> []"
  shows "collectLake c (n, wp, setFreePaths (zone wp) free w) =
     Inr (Suc n,
          wp\<lparr>lakes := lakes wp @ [newLake w c],
             lakeMap := (\<lambda>t. if t \<in> set c then Some n else lakeMap wp t)\<rparr>,
          setFreePaths (zone wp)
            (if overlap c free then free else add free (hd (last (distanceLayers c)))) w)"
proof -
  have r: "reverseDistanceMap (newLake w c) = distanceLayers c"
    by (simp add: newLake_def computeDistanceMap_def)
  have f: "freePaths (zones (setFreePaths (zone wp) free w) (zone wp)) = free"
    by (simp add: setFreePaths_def)
  have u: "updateZone (zone wp) (\<lambda>z. z\<lparr>freePaths := add (freePaths z) t\<rparr>)
             (setFreePaths (zone wp) free w) = setFreePaths (zone wp) (add free t) w" for t
    by (simp add: updateZone_def setFreePaths_def)
  show ?thesis
    unfolding collectLake_def
    by (simp add: Let_def newLake_setFreePaths r f u mark_tiles deepestTile_hd [OF assms])
qed

lemma collectLoop_eq:
  "\<forall>c \<in> set cs. c \<noteq> [] \<Longrightarrow>
   collectLoop cs (n, wp, setFreePaths (zone wp) free w) =
     Inr (n + length cs,
          wp\<lparr>lakes := lakes wp @ map (newLake w) cs, lakeMap := indexTiles (lakeMap wp) n cs\<rparr>,
          setFreePaths (zone wp) (promote free cs) w)"
proof (induction cs arbitrary: n wp free)
  case Nil
  then show ?case by simp
next
  case (Cons c cs)
  then have c: "c \<noteq> []" and cs: "\<forall>c \<in> set cs. c \<noteq> []" by auto
  let ?wp = "wp\<lparr>lakes := lakes wp @ [newLake w c],
             lakeMap := (\<lambda>t. if t \<in> set c then Some n else lakeMap wp t)\<rparr>"
  have z: "zone ?wp = zone wp" by simp
  show ?case
    using Cons.IH [OF cs, of "Suc n" ?wp] collectLake_eq [OF c, of n wp free w]
    by simp
qed

lemma collectLakes_eq:
  assumes "lakes wp = []"
  shows "collectLakes wp w =
     Inr (wp\<lparr>lakes := map (newLake w) (connectedAreas (zoneArea (zones w (zone wp))) True),
             lakeMap := indexTiles (lakeMap wp) 0
                          (connectedAreas (zoneArea (zones w (zone wp))) True)\<rparr>,
          setFreePaths (zone wp)
            (promote (freePaths (zones w (zone wp)))
               (connectedAreas (zoneArea (zones w (zone wp))) True)) w)"
proof -
  let ?cs = "connectedAreas (zoneArea (zones w (zone wp))) True"
  have ne: "\<forall>c \<in> set ?cs. c \<noteq> []" using connectedAreas_nonempty by blast
  from collectLoop_eq [OF ne, of 0 wp "freePaths (zones w (zone wp))" w] assms
  show ?thesis by (simp add: collectLakes_def setFreePaths_same)
qed

lemma area_newLake: "area (newLake w c) = c"
  by (simp add: newLake_def)

lemma layers_newLake: "reverseDistanceMap (newLake w c) = distanceLayers c"
  by (simp add: newLake_def computeDistanceMap_def)

text \<open>The index and the free tiles after the loop.\<close>

lemma indexTiles_outside:
  "t \<notin> \<Union> (set ` set cs) \<Longrightarrow> indexTiles m n cs t = m t"
  by (induction cs arbitrary: m n) auto

lemma indexTiles_inside:
  "disjointAreas cs \<Longrightarrow> i < length cs \<Longrightarrow> t \<in> set (cs ! i) \<Longrightarrow>
   indexTiles m n cs t = Some (n + i)"
proof (induction cs arbitrary: m n i)
  case Nil
  then show ?case by simp
next
  case (Cons c cs)
  show ?case
  proof (cases i)
    case 0
    with Cons.prems have "t \<in> set c" "t \<notin> \<Union> (set ` set cs)" by auto
    then show ?thesis using 0 by (simp add: indexTiles_outside)
  next
    case (Suc i')
    with Cons.prems Cons.IH [of i' "\<lambda>t. if t \<in> set c then Some n else m t" "Suc n"]
    show ?thesis by simp
  qed
qed

lemma overlap_conv: "overlap a b = (set a \<inter> set b \<noteq> {})"
  by (simp add: overlap_def intersect_empty_conv)

lemma promote_mono: "set free \<subseteq> set (promote free cs)"
proof (induction cs arbitrary: free)
  case Nil
  then show ?case by simp
next
  case (Cons c cs)
  have "set free \<subseteq> set (if overlap c free then free else add free (hd (last (distanceLayers c))))"
    by (auto simp: set_add)
  with Cons.IH show ?case by fastforce
qed

lemma promote_within:
  "\<forall>c \<in> set cs. c \<noteq> [] \<Longrightarrow> set (promote free cs) \<subseteq> set free \<union> \<Union> (set ` set cs)"
proof (induction cs arbitrary: free)
  case Nil
  then show ?case by simp
next
  case (Cons c cs)
  then have c: "c \<noteq> []" and cs: "\<forall>c \<in> set cs. c \<noteq> []" by auto
  let ?f = "if overlap c free then free else add free (hd (last (distanceLayers c)))"
  have "set ?f \<subseteq> set free \<union> set c"
    using deepest_in_layer(2) [OF c] by (auto simp: set_add)
  with Cons.IH [OF cs, of ?f] show ?case by auto
qed

lemma promote_apart:
  assumes "\<forall>c \<in> set cs. c \<noteq> []" and "S \<inter> \<Union> (set ` set cs) = {}"
  shows "S \<inter> set (promote free cs) = S \<inter> set free"
  using promote_mono [of free cs] promote_within [OF assms(1), of free] assms(2) by auto

lemma promote_lake:
  "disjointAreas cs \<Longrightarrow> \<forall>c \<in> set cs. c \<noteq> [] \<Longrightarrow> c \<in> set cs \<Longrightarrow>
   set c \<inter> set (promote free cs) \<noteq> {}
   \<and> (set c \<inter> set free \<noteq> {} \<longrightarrow> set c \<inter> set (promote free cs) = set c \<inter> set free)
   \<and> (set c \<inter> set free = {} \<longrightarrow>
        (\<exists>t \<in> set (last (distanceLayers c)). set c \<inter> set (promote free cs) = {t}))"
proof (induction cs arbitrary: free)
  case Nil
  then show ?case by simp
next
  case (Cons c0 cs)
  then have c0: "c0 \<noteq> []" and cs: "\<forall>c \<in> set cs. c \<noteq> []"
    and d0: "set c0 \<inter> \<Union> (set ` set cs) = {}" and d: "disjointAreas cs"
    by auto
  let ?t = "hd (last (distanceLayers c0))"
  let ?f = "if overlap c0 free then free else add free ?t"
  note t = deepest_in_layer [OF c0]
  show ?case
  proof (cases "c \<in> set cs")
    case True
    then have "set c \<subseteq> \<Union> (set ` set cs)" by auto
    with d0 t(2) have "?t \<notin> set c" by auto
    then have same: "set c \<inter> set ?f = set c \<inter> set free" by (auto simp: set_add)
    from Cons.IH [OF d cs True, of ?f] show ?thesis
      unfolding same by simp
  next
    case False
    with Cons.prems have e: "c = c0" by simp
    have p: "set c0 \<inter> set (promote ?f cs) = set c0 \<inter> set ?f"
      by (rule promote_apart [OF cs d0])
    show ?thesis
    proof (cases "overlap c0 free")
      case True
      with p show ?thesis unfolding e by (simp add: overlap_conv)
    next
      case no: False
      with t(2) have "set c0 \<inter> set ?f = {?t}" by (auto simp: overlap_conv set_add)
      with p no t(1) show ?thesis unfolding e by (auto simp: overlap_conv)
    qed
  qed
qed

text \<open>
  C5. \<open>collectLakes\<close>, started without lakes, ends without an error, and afterwards every
  lake shares a tile with \<open>freePaths\<close> of the zone. The free tiles only grow, and only by
  tiles of the zone's area. A lake that shared a tile with \<open>freePaths\<close> before has the same
  free tiles as before; a lake that shared none has exactly one free tile afterwards, a
  tile of the last, deepest, layer of its \<open>reverseDistanceMap\<close>.
\<close>

theorem collectLakes_free_tile:
  assumes "lakes wp = []"
  shows "\<exists>wp' w'. collectLakes wp w = Inr (wp', w')
     \<and> set (freePaths (zones w (zone wp))) \<subseteq> set (freePaths (zones w' (zone wp)))
     \<and> set (freePaths (zones w' (zone wp)))
          \<subseteq> set (freePaths (zones w (zone wp))) \<union> set (zoneArea (zones w (zone wp)))
     \<and> (\<forall>l \<in> set (lakes wp').
           set (area l) \<inter> set (freePaths (zones w' (zone wp))) \<noteq> {}
           \<and> (set (area l) \<inter> set (freePaths (zones w (zone wp))) \<noteq> {} \<longrightarrow>
                set (area l) \<inter> set (freePaths (zones w' (zone wp)))
                  = set (area l) \<inter> set (freePaths (zones w (zone wp))))
           \<and> (set (area l) \<inter> set (freePaths (zones w (zone wp))) = {} \<longrightarrow>
                reverseDistanceMap l \<noteq> []
                \<and> (\<exists>t \<in> set (last (reverseDistanceMap l)).
                      set (area l) \<inter> set (freePaths (zones w' (zone wp))) = {t})))"
proof -
  let ?A = "zoneArea (zones w (zone wp))"
  let ?F = "freePaths (zones w (zone wp))"
  let ?cs = "connectedAreas ?A True"
  let ?wp = "wp\<lparr>lakes := map (newLake w) ?cs, lakeMap := indexTiles (lakeMap wp) 0 ?cs\<rparr>"
  let ?w = "setFreePaths (zone wp) (promote ?F ?cs) w"
  have eq: "collectLakes wp w = Inr (?wp, ?w)" by (rule collectLakes_eq [OF assms])
  have ne: "\<forall>c \<in> set ?cs. c \<noteq> []" using connectedAreas_nonempty by blast
  have dis: "disjointAreas ?cs" by (rule connectedAreas_disjoint)
  have un: "\<Union> (set ` set ?cs) = set ?A" by (rule connectedAreas_union)
  have f: "freePaths (zones ?w (zone wp)) = promote ?F ?cs" by (simp add: setFreePaths_def)
  have 1: "set ?F \<subseteq> set (freePaths (zones ?w (zone wp)))"
    unfolding f by (rule promote_mono)
  have 2: "set (freePaths (zones ?w (zone wp))) \<subseteq> set ?F \<union> set ?A"
    unfolding f using promote_within [OF ne, of ?F] un by simp
  have 3: "set (area l) \<inter> set (freePaths (zones ?w (zone wp))) \<noteq> {}
           \<and> (set (area l) \<inter> set ?F \<noteq> {} \<longrightarrow>
                set (area l) \<inter> set (freePaths (zones ?w (zone wp))) = set (area l) \<inter> set ?F)
           \<and> (set (area l) \<inter> set ?F = {} \<longrightarrow>
                reverseDistanceMap l \<noteq> []
                \<and> (\<exists>t \<in> set (last (reverseDistanceMap l)).
                      set (area l) \<inter> set (freePaths (zones ?w (zone wp))) = {t}))"
    if l: "l \<in> set (lakes ?wp)" for l
  proof -
    from l obtain c where c: "c \<in> set ?cs" "l = newLake w c" by auto
    with ne have "c \<noteq> []" by blast
    then have n: "distanceLayers c \<noteq> []" by (rule distanceLayers_nonempty)
    from promote_lake [OF dis ne c(1), of ?F] n show ?thesis
      unfolding f c(2) area_newLake layers_newLake by simp
  qed
  have all3: "\<forall>l \<in> set (lakes ?wp).
           set (area l) \<inter> set (freePaths (zones ?w (zone wp))) \<noteq> {}
           \<and> (set (area l) \<inter> set ?F \<noteq> {} \<longrightarrow>
                set (area l) \<inter> set (freePaths (zones ?w (zone wp))) = set (area l) \<inter> set ?F)
           \<and> (set (area l) \<inter> set ?F = {} \<longrightarrow>
                reverseDistanceMap l \<noteq> []
                \<and> (\<exists>t \<in> set (last (reverseDistanceMap l)).
                      set (area l) \<inter> set (freePaths (zones ?w (zone wp))) = {t}))"
    using 3 by blast
  show ?thesis
  proof (intro exI conjI)
    show "collectLakes wp w = Inr (?wp, ?w)" by (rule eq)
  qed (rule 1 2 all3)+
qed

theorem collectLakes_free_tile_witness:
  "lakes freshProxy = []
   \<and> \<not> isl (collectLakes freshProxy pairWorld)
   \<and> freePaths (zones pairWorld (zone freshProxy)) = [(5, 5, 0)]
   \<and> area (lakes (fst (projr (collectLakes freshProxy pairWorld))) ! 0) = [(0, 0, 0), (1, 0, 0)]
   \<and> last (reverseDistanceMap (lakes (fst (projr (collectLakes freshProxy pairWorld))) ! 0))
       = [(0, 0, 0), (1, 0, 0)]
   \<and> freePaths (zones (snd (projr (collectLakes freshProxy pairWorld))) (zone freshProxy))
       = [(5, 5, 0), (0, 0, 0)]
   \<and> set (freePaths (zones pairWorld (zone freshProxy)))
       \<subseteq> set (freePaths (zones (snd (projr (collectLakes freshProxy pairWorld)))
                   (zone freshProxy)))"
proof -
  let ?R = "collectLakes freshProxy pairWorld"
  have h: "lakes freshProxy = []" by (simp add: freshProxy_def)
  from collectLakes_free_tile [OF h, of pairWorld] obtain wp' w' where
    e: "?R = Inr (wp', w')"
    and m: "set (freePaths (zones pairWorld (zone freshProxy)))
              \<subseteq> set (freePaths (zones w' (zone freshProxy)))"
    by blast
  from e have p: "\<not> isl ?R" "snd (projr ?R) = w'" by simp_all
  have v: "freePaths (zones pairWorld (zone freshProxy)) = [(5, 5, 0)]"
    "area (lakes (fst (projr ?R)) ! 0) = [(0, 0, 0), (1, 0, 0)]"
    "last (reverseDistanceMap (lakes (fst (projr ?R)) ! 0)) = [(0, 0, 0), (1, 0, 0)]"
    "freePaths (zones (snd (projr ?R)) (zone freshProxy)) = [(5, 5, 0), (0, 0, 0)]"
    by code_simp+
  from h p m v show ?thesis by simp
qed

text \<open>
  C6. \<open>collectLakes\<close>, started without lakes, ends without an error and leaves the area of
  the zone as it was. Afterwards the areas of the lakes cover the area of the zone and are
  pairwise disjoint, every tile of the area lies in exactly one lake, and \<open>lakeMap\<close> sends
  every tile of a lake to the number of this lake.
\<close>

theorem collectLakes_partition:
  assumes "lakes wp = []"
  shows "\<exists>wp' w'. collectLakes wp w = Inr (wp', w')
     \<and> zoneArea (zones w' (zone wp)) = zoneArea (zones w (zone wp))
     \<and> (\<Union>l \<in> set (lakes wp'). set (area l)) = set (zoneArea (zones w (zone wp)))
     \<and> (\<forall>i < length (lakes wp'). \<forall>j < length (lakes wp'). i \<noteq> j \<longrightarrow>
           set (area (lakes wp' ! i)) \<inter> set (area (lakes wp' ! j)) = {})
     \<and> (\<forall>t \<in> set (zoneArea (zones w (zone wp))).
           \<exists>!k. k < length (lakes wp') \<and> t \<in> set (area (lakes wp' ! k)))
     \<and> (\<forall>k < length (lakes wp'). \<forall>t \<in> set (area (lakes wp' ! k)). lakeMap wp' t = Some k)"
proof -
  let ?A = "zoneArea (zones w (zone wp))"
  let ?cs = "connectedAreas ?A True"
  let ?wp = "wp\<lparr>lakes := map (newLake w) ?cs, lakeMap := indexTiles (lakeMap wp) 0 ?cs\<rparr>"
  let ?w = "setFreePaths (zone wp) (promote (freePaths (zones w (zone wp))) ?cs) w"
  have eq: "collectLakes wp w = Inr (?wp, ?w)" by (rule collectLakes_eq [OF assms])
  have len: "length (lakes ?wp) = length ?cs" by simp
  have nth: "area (lakes ?wp ! k) = ?cs ! k" if "k < length ?cs" for k
    using that by (simp add: area_newLake)
  have dis: "disjointAreas ?cs" by (rule connectedAreas_disjoint)
  have un: "\<Union> (set ` set ?cs) = set ?A" by (rule connectedAreas_union)
  have 1: "zoneArea (zones ?w (zone wp)) = ?A" by (simp add: setFreePaths_def)
  have 2: "(\<Union>l \<in> set (lakes ?wp). set (area l)) = set ?A"
    using un by (auto simp: area_newLake)
  have 3: "\<forall>i < length (lakes ?wp). \<forall>j < length (lakes ?wp). i \<noteq> j \<longrightarrow>
           set (area (lakes ?wp ! i)) \<inter> set (area (lakes ?wp ! j)) = {}"
    using disjointAreas_nth [OF dis] by (simp add: area_newLake)
  have 4: "\<exists>!k. k < length (lakes ?wp) \<and> t \<in> set (area (lakes ?wp ! k))" if t: "t \<in> set ?A" for t
  proof -
    from t un obtain c where "c \<in> set ?cs" "t \<in> set c" by blast
    then obtain k where k: "k < length ?cs" "t \<in> set (?cs ! k)"
      by (metis in_set_conv_nth)
    show ?thesis
    proof (intro ex1I [of _ k])
      show "k < length (lakes ?wp) \<and> t \<in> set (area (lakes ?wp ! k))"
        using k by (simp add: area_newLake)
    next
      fix j
      assume "j < length (lakes ?wp) \<and> t \<in> set (area (lakes ?wp ! j))"
      then have j: "j < length ?cs" "t \<in> set (?cs ! j)" by (auto simp: area_newLake)
      show "j = k"
      proof (rule ccontr)
        assume "j \<noteq> k"
        from disjointAreas_nth [OF dis j(1) k(1) this] j(2) k(2) show False by blast
      qed
    qed
  qed
  have 5: "\<forall>k < length (lakes ?wp). \<forall>t \<in> set (area (lakes ?wp ! k)). lakeMap ?wp t = Some k"
    using indexTiles_inside [OF dis, where n = 0] by (simp add: area_newLake)
  have all4: "\<forall>t \<in> set ?A. \<exists>!k. k < length (lakes ?wp) \<and> t \<in> set (area (lakes ?wp ! k))"
    using 4 by blast
  show ?thesis
  proof (intro exI conjI)
    show "collectLakes wp w = Inr (?wp, ?w)" by (rule eq)
  qed (rule 1 2 3 all4 5)+
qed

theorem collectLakes_partition_witness:
  "lakes freshProxy = []
   \<and> \<not> isl (collectLakes freshProxy pairWorld)
   \<and> map area (lakes (fst (projr (collectLakes freshProxy pairWorld))))
       = [[(0, 0, 0), (1, 0, 0)], [(5, 5, 0)]]
   \<and> lakeMap (fst (projr (collectLakes freshProxy pairWorld))) (1, 0, 0) = Some 0
   \<and> lakeMap (fst (projr (collectLakes freshProxy pairWorld))) (5, 5, 0) = Some 1"
proof -
  let ?R = "collectLakes freshProxy pairWorld"
  have h: "lakes freshProxy = []" by (simp add: freshProxy_def)
  from collectLakes_partition [OF h, of pairWorld] obtain wp' w' where
    e: "?R = Inr (wp', w')"
    and m: "\<forall>k < length (lakes wp'). \<forall>t \<in> set (area (lakes wp' ! k)). lakeMap wp' t = Some k"
    by blast
  from e have p: "\<not> isl ?R" "fst (projr ?R) = wp'" by simp_all
  have a: "map area (lakes (fst (projr ?R))) = [[(0, 0, 0), (1, 0, 0)], [(5, 5, 0)]]"
    by code_simp
  then have l: "length (lakes wp') = 2" unfolding p(2) by (metis length_map length_Cons list.size(3) numeral_2_eq_2)
  from a l have a0: "area (lakes wp' ! 0) = [(0, 0, 0), (1, 0, 0)]"
    and a1: "area (lakes wp' ! 1) = [(5, 5, 0)]"
    unfolding p(2) by (metis nth_map nth_Cons_0 zero_less_numeral, metis nth_map nth_Cons_0 nth_Cons_Suc One_nat_def one_less_numeral_iff semiring_norm(76))
  from m l a0 have "lakeMap wp' (1, 0, 0) = Some 0" by auto
  moreover from m l a1 have "lakeMap wp' (5, 5, 0) = Some 1" by auto
  ultimately show ?thesis using h p a by simp
qed

section \<open>The acceptance function of placeShipyard\<close>

text \<open>
  C7. The acceptance function that \<open>placeShipyard\<close> passes to the object manager returns a
  positive score exactly when the outside border of the shipyard (the blocked area of the
  first instance of the object, without the guard) contains the boarding tile and shares a
  tile with the computed water tiles next to it; in every other case it returns \<open>-1\<close>.
\<close>

theorem shipyardWeight_accepts:
  "shipyardWeight env shipPositions boardingPosition rmgObject tile =
     (if boardingPosition \<in> set (getBorderOutside (frontBlockedArea env rmgObject))
         \<and> set (getBorderOutside (frontBlockedArea env rmgObject)) \<inter> set shipPositions \<noteq> {}
      then 1 else - 1)
   \<and> (0 < shipyardWeight env shipPositions boardingPosition rmgObject tile) =
     (boardingPosition \<in> set (getBorderOutside (frontBlockedArea env rmgObject))
      \<and> set (getBorderOutside (frontBlockedArea env rmgObject)) \<inter> set shipPositions \<noteq> {})"
  by (simp add: shipyardWeight_def Let_def contains_def intersect_empty_conv)

theorem shipyardWeight_accepts_witness:
  "shipyardWeight demoEnv [(1, 0, 0)] (1, 1, 0) (2, 1, 0) (2, 1, 0) = 1
   \<and> shipyardWeight demoEnv [(1, 0, 0)] (1, 1, 0) (3, 1, 0) (3, 1, 0) = - 1
   \<and> shipyardWeight demoEnv [(5, 5, 0)] (1, 1, 0) (2, 1, 0) (2, 1, 0) = - 1"
proof -
  have a: "(1, 1, 0) \<in> set (getBorderOutside (frontBlockedArea demoEnv (2, 1, 0)))
      \<and> set (getBorderOutside (frontBlockedArea demoEnv (2, 1, 0))) \<inter> set [(1, 0, 0)] \<noteq> {}"
    by code_simp
  have b: "(1, 1, 0) \<notin> set (getBorderOutside (frontBlockedArea demoEnv (3, 1, 0)))"
    by code_simp
  have c: "set (getBorderOutside (frontBlockedArea demoEnv (2, 1, 0))) \<inter> set [(5, 5, 0)] = {}"
    by code_simp
  show ?thesis
    using a b c
      shipyardWeight_accepts [of demoEnv "[(1, 0, 0)]" "(1, 1, 0)" "(2, 1, 0)" "(2, 1, 0)"]
      shipyardWeight_accepts [of demoEnv "[(1, 0, 0)]" "(1, 1, 0)" "(3, 1, 0)" "(3, 1, 0)"]
      shipyardWeight_accepts [of demoEnv "[(5, 5, 0)]" "(1, 1, 0)" "(2, 1, 0)" "(2, 1, 0)"]
    by simp
qed

section \<open>Failure of a placement\<close>

text \<open>
  The failures that are reported by a return value. A placement that returns false leaves
  the \<open>RouteInfo\<close> as it was. \<open>placeBoat\<close> returns false when the water zone has no object
  manager or when there is no sailing boat; \<open>placeShipyard\<close> returns false when the land
  zone has no object manager; for a lake that borders the land zone, both return false when
  no candidate yields a valid path, that is when every boarding position has been tried and
  erased. On a lake that borders the land zone \<open>placeShipyard\<close> never ends in an error and
  the lookup \<open>neighbourZones.at\<close> of \<open>placeBoat\<close> never throws. \<open>waterRoute\<close> returns the
  empty \<open>RouteInfo\<close>, with the state untouched, when the zone has no \<open>WaterAdopter\<close> or the
  adopter has no coast tiles.
\<close>

lemma placement_failure_cases:
  "(\<not> objectManager (zones w (zone wp)) \<longrightarrow>
      placeBoat env wp land lake info w = Inr (False, info, w))
   \<and> (filter (boatIsSail env) (knownBoats env) = [] \<longrightarrow>
      placeBoat env wp land lake info w = Inr (False, info, w))
   \<and> (\<not> objectManager (zones w land) \<longrightarrow>
      placeShipyard env wp land lake guard info w = Inr (False, info, w))
   \<and> (nzCount lake land \<and> (\<forall>p. \<not> valid env p) \<longrightarrow>
      (\<exists>w'. placeBoat env wp land lake info w = Inr (False, info, w'))
      \<and> (\<exists>w'. placeShipyard env wp land lake guard info w = Inr (False, info, w')))
   \<and> (\<forall>info' w'. placeBoat env wp land lake info w = Inr (False, info', w')
         \<or> placeShipyard env wp land lake guard info w = Inr (False, info', w') \<longrightarrow> info' = info)
   \<and> (nzCount lake land \<longrightarrow>
        (\<forall>e. placeShipyard env wp land lake guard info w \<noteq> Inl e)
        \<and> placeBoat env wp land lake info w \<noteq> Inl OutOfRange)
   \<and> (waterAdopter (zones w dst) = None \<or> waterAdopter (zones w dst) = Some [] \<longrightarrow>
      waterRoute env wp dst w = Inr (emptyRouteInfo, [], w))"
proof (intro conjI impI allI)
  assume "\<not> objectManager (zones w (zone wp))"
  then show "placeBoat env wp land lake info w = Inr (False, info, w)"
    by (simp add: placeBoat_def)
next
  assume "filter (boatIsSail env) (knownBoats env) = []"
  then show "placeBoat env wp land lake info w = Inr (False, info, w)"
    by (simp add: placeBoat_def)
next
  assume "\<not> objectManager (zones w land)"
  then show "placeShipyard env wp land lake guard info w = Inr (False, info, w)"
    by (simp add: placeShipyard_def)
next
  assume a: "nzCount lake land \<and> (\<forall>p. \<not> valid env p)"
  then obtain coast where c: "map_of (neighbourZones lake) land = Some coast"
    using nzCount_map_of by blast
  from a have v: "\<forall>p. \<not> valid env p" by simp
  show "\<exists>w'. placeBoat env wp land lake info w = Inr (False, info, w')"
    using boatLoop_exhausted [OF v] by (simp add: placeBoat_def Let_def c)
  show "\<exists>w'. placeShipyard env wp land lake guard info w = Inr (False, info, w')"
    using shipyardLoop_exhausted [OF v] by (simp add: placeShipyard_def Let_def c)
next
  fix info' w'
  assume "placeBoat env wp land lake info w = Inr (False, info', w')
         \<or> placeShipyard env wp land lake guard info w = Inr (False, info', w')"
  then show "info' = info"
  proof
    assume "placeBoat env wp land lake info w = Inr (False, info', w')"
    then show ?thesis
      by (auto simp: placeBoat_def Let_def split: if_splits option.splits
          dest: boatLoop_failure_keeps_info)
  next
    assume "placeShipyard env wp land lake guard info w = Inr (False, info', w')"
    then show ?thesis
      by (auto simp: placeShipyard_def Let_def split: if_splits option.splits
          dest: shipyardLoop_failure_keeps_info)
  qed
next
  fix e
  assume "nzCount lake land"
  then obtain coast where c: "map_of (neighbourZones lake) land = Some coast"
    using nzCount_map_of by blast
  show "placeShipyard env wp land lake guard info w \<noteq> Inl e"
    by (simp add: placeShipyard_def Let_def c shipyardLoop_no_error)
next
  assume "nzCount lake land"
  then obtain coast where c: "map_of (neighbourZones lake) land = Some coast"
    using nzCount_map_of by blast
  show "placeBoat env wp land lake info w \<noteq> Inl OutOfRange"
    using boatLoop_error [where e = OutOfRange]
    by (auto simp: placeBoat_def Let_def c)
next
  assume "waterAdopter (zones w dst) = None \<or> waterAdopter (zones w dst) = Some []"
  then show "waterRoute env wp dst w = Inr (emptyRouteInfo, [], w)"
    by (auto simp: waterRoute_def)
qed

lemma placement_failure_cases_example:
  "\<not> objectManager (zones noManagerWorld (zone coastProxy))
   \<and> \<not> objectManager (zones noManagerWorld 1)
   \<and> placeBoat demoEnv coastProxy 1 westLake emptyRouteInfo noManagerWorld
       = Inr (False, emptyRouteInfo, noManagerWorld)
   \<and> placeShipyard demoEnv coastProxy 1 westLake 0 emptyRouteInfo noManagerWorld
       = Inr (False, emptyRouteInfo, noManagerWorld)
   \<and> nzCount westLake 1
   \<and> \<not> isl (placeBoat blockedEnv coastProxy 1 westLake emptyRouteInfo coastWorld)
   \<and> \<not> fst (projr (placeBoat blockedEnv coastProxy 1 westLake emptyRouteInfo coastWorld))
   \<and> \<not> isl (placeShipyard blockedEnv coastProxy 1 westLake 0 emptyRouteInfo coastWorld)
   \<and> \<not> fst (projr (placeShipyard blockedEnv coastProxy 1 westLake 0 emptyRouteInfo coastWorld))
   \<and> waterAdopter (zones coastWorld 0) = None
   \<and> waterRoute demoEnv coastProxy 0 coastWorld = Inr (emptyRouteInfo, [], coastWorld)"
proof -
  have m: "\<not> objectManager (zones noManagerWorld (zone coastProxy))"
    "\<not> objectManager (zones noManagerWorld 1)"
    by code_simp+
  have b: "nzCount westLake 1" by code_simp
  have v: "\<forall>p. \<not> valid blockedEnv p" by (simp add: blockedEnv_def)
  have a: "waterAdopter (zones coastWorld 0) = None" by code_simp
  note t1 = placement_failure_cases [where w = noManagerWorld and wp = coastProxy
      and env = demoEnv and land = 1 and lake = westLake and info = emptyRouteInfo
      and guard = 0 and dst = 0]
  note t2 = placement_failure_cases [where w = coastWorld and wp = coastProxy
      and env = blockedEnv and land = 1 and lake = westLake and info = emptyRouteInfo
      and guard = 0 and dst = 0]
  note t3 = placement_failure_cases [where w = coastWorld and wp = coastProxy
      and env = demoEnv and land = 1 and lake = westLake and info = emptyRouteInfo
      and guard = 0 and dst = 0]
  from t1 m have 1: "placeBoat demoEnv coastProxy 1 westLake emptyRouteInfo noManagerWorld
       = Inr (False, emptyRouteInfo, noManagerWorld)"
    "placeShipyard demoEnv coastProxy 1 westLake 0 emptyRouteInfo noManagerWorld
       = Inr (False, emptyRouteInfo, noManagerWorld)"
    by blast+
  from t2 b v obtain w1 w2 where
    "placeBoat blockedEnv coastProxy 1 westLake emptyRouteInfo coastWorld
       = Inr (False, emptyRouteInfo, w1)"
    "placeShipyard blockedEnv coastProxy 1 westLake 0 emptyRouteInfo coastWorld
       = Inr (False, emptyRouteInfo, w2)"
    by blast
  then have 2: "\<not> isl (placeBoat blockedEnv coastProxy 1 westLake emptyRouteInfo coastWorld)"
    "\<not> fst (projr (placeBoat blockedEnv coastProxy 1 westLake emptyRouteInfo coastWorld))"
    "\<not> isl (placeShipyard blockedEnv coastProxy 1 westLake 0 emptyRouteInfo coastWorld)"
    "\<not> fst (projr (placeShipyard blockedEnv coastProxy 1 westLake 0 emptyRouteInfo coastWorld))"
    by simp_all
  from t3 a have 3: "waterRoute demoEnv coastProxy 0 coastWorld = Inr (emptyRouteInfo, [], coastWorld)"
    by blast
  from m b a 1 2 3 show ?thesis by simp
qed

text \<open>
  C8: a placement that fails is reported by the value returned, never by an exception or
  an abort; \<open>placeBoat\<close> and \<open>placeShipyard\<close> return false when the object manager they
  need is missing. The source breaks this for the object manager of the land zone in
  \<open>placeBoat\<close>. In the scenario below the water zone has an object manager and the land
  zone 1, a start zone, has none. \<open>placeShipyard\<close> tests the land zone's manager and returns
  false; \<open>waterRoute\<close> falls back to \<open>placeBoat\<close>, which tests the manager of the water
  zone only and, once its search has succeeded, uses the manager of the land zone
  unchecked: the run ends in the error \<open>NullDeref\<close>, not in a returned failure.
\<close>

theorem placeBoat_missing_land_manager:
  "objectManager (zones landNoManagerWorld (zone coastProxy))
   \<and> \<not> objectManager (zones landNoManagerWorld 1)
   \<and> nzCount westLake 1 \<and> 1 \<in> keepConnections westLake
   \<and> \<not> isl (placeShipyard demoEnv coastProxy 1 westLake (shipyardGuard demoEnv) emptyRouteInfo
              landNoManagerWorld)
   \<and> fst (projr (placeShipyard demoEnv coastProxy 1 westLake (shipyardGuard demoEnv)
              emptyRouteInfo landNoManagerWorld)) = False
   \<and> isl (placeBoat demoEnv coastProxy 1 westLake emptyRouteInfo landNoManagerWorld)
   \<and> projl (placeBoat demoEnv coastProxy 1 westLake emptyRouteInfo landNoManagerWorld)
       = NullDeref
   \<and> isl (waterRoute demoEnv coastProxy 1 landNoManagerWorld)
   \<and> projl (waterRoute demoEnv coastProxy 1 landNoManagerWorld) = NullDeref"
  by code_simp

section \<open>The RouteInfo of a successful placement\<close>



section \<open>waterRoute: one RouteInfo for all the lakes\<close>

lemma placedIn_simps:
  "placedIn [] = False"
  "placedIn [(l, ''Shipyard successfully placed at zone %d'', d)] = True"
  "placedIn [(l, ''Boat successfully placed at zone %d'', d)] = True"
  "placedIn [(l, ''Boat placement failed at zone %d'', d)] = False"
  "placedIn [(l, ''Skipping very small lake at zone %d'', d)] = False"
  "placedIn [(l, ''Shipyard placement failed, trying boat at zone %d'', d), e] = placedIn [e]"
  by (simp_all add: placedIn_def)

lemma placedIn_append: "placedIn (a @ b) = (placedIn a \<or> placedIn b)"
  by (auto simp: placedIn_def)

lemma routeLake_info_logs:
  "routeLake env wp dst lake (j, logs, w)
     = rebaseRoute j (length logs) (routeLake env wp dst lake (i, logs, w))
   \<and> (\<forall>r logs' w'. routeLake env wp dst lake (i, logs, w) = Inr (r, logs', w') \<longrightarrow>
          take (length logs) logs' = logs)"
proof (cases "nzCount lake dst \<and> dst \<in> keepConnections lake \<and> \<not> length (remdups (area lake)) < 25")
  case False
  then show ?thesis
    by (auto simp: routeLake_def rebaseRoute_def placedIn_simps)
next
  case True
  show ?thesis
  proof (cases "startOrTown (zones w dst)")
    case s: True
    show ?thesis
    proof (cases rule: placeShipyard_cases [of env wp dst lake "shipyardGuard env" i w])
      case (err e)
      from err placeShipyard_write_error [OF err, of j] True s show ?thesis
        unfolding startOrTown_code by (simp add: routeLake_def rebaseRoute_def)
    next
      case (ok r w')
      from ok placeShipyard_write [OF ok, of j] True s show ?thesis
        unfolding startOrTown_code by (simp add: routeLake_def rebaseRoute_def placedIn_simps)
    next
      case (fail w')
      note sy = fail placeShipyard_write [OF fail, of j]
      show ?thesis
      proof (cases rule: placeBoat_cases [of env wp dst lake i w'])
        case (err e)
        from err placeBoat_write_error [OF err, of j] sy True s show ?thesis
          unfolding startOrTown_code by (simp add: routeLake_def rebaseRoute_def)
      next
        case (ok r w'')
        from ok placeBoat_write [OF ok, of j] sy True s show ?thesis
          unfolding startOrTown_code by (simp add: routeLake_def rebaseRoute_def placedIn_simps)
      next
        case (fail w'')
        from fail placeBoat_write [OF fail, of j] sy True s show ?thesis
          unfolding startOrTown_code by (simp add: routeLake_def rebaseRoute_def placedIn_simps)
      qed
    qed
  next
    case s: False
    show ?thesis
    proof (cases rule: placeBoat_cases [of env wp dst lake i w])
      case (err e)
      from err placeBoat_write_error [OF err, of j] True s show ?thesis
        unfolding startOrTown_code by (simp add: routeLake_def rebaseRoute_def)
    next
      case (ok r w'')
      from ok placeBoat_write [OF ok, of j] True s show ?thesis
        unfolding startOrTown_code by (simp add: routeLake_def rebaseRoute_def placedIn_simps)
    next
      case (fail w'')
      from fail placeBoat_write [OF fail, of j] True s show ?thesis
        unfolding startOrTown_code by (simp add: routeLake_def rebaseRoute_def placedIn_simps)
    qed
  qed
qed

lemma routeLake_info:
  "routeLake env wp dst lake (j, logs, w)
     = rebaseRoute j (length logs) (routeLake env wp dst lake (i, logs, w))"
  using routeLake_info_logs by blast

lemma routeLake_logs:
  "routeLake env wp dst lake (i, logs, w) = Inr (r, logs', w') \<Longrightarrow>
   take (length logs) logs' = logs"
  using routeLake_info_logs by blast

lemma routeLoop_info_logs:
  "routeLoop env wp dst ls (j, logs, w)
     = rebaseRoute j (length logs) (routeLoop env wp dst ls (i, logs, w))
   \<and> (\<forall>r logs' w'. routeLoop env wp dst ls (i, logs, w) = Inr (r, logs', w') \<longrightarrow>
          take (length logs) logs' = logs)"
proof (induction ls arbitrary: i j logs w)
  case Nil
  show ?case by (simp add: rebaseRoute_def placedIn_def)
next
  case (Cons l ls)
  show ?case
  proof (cases "routeLake env wp dst l (i, logs, w)")
    case (Inl e)
    with routeLake_info [of env wp dst l j logs w i] show ?thesis
      by (simp add: rebaseRoute_def)
  next
    case (Inr st)
    obtain r1 logs1 w1 where st: "st = (r1, logs1, w1)" by (cases st)
    from Inr st routeLake_logs obtain d1 where d1: "logs1 = logs @ d1"
      using take_prefix_append by blast
    define j1 where "j1 = (if placedIn d1 then r1 else j)"
    have stepj: "routeLake env wp dst l (j, logs, w) = Inr (j1, logs1, w1)"
      using routeLake_info [of env wp dst l j logs w i] Inr st d1
      by (simp add: rebaseRoute_def j1_def)
    note IH = Cons.IH [of j1 logs1 w1 r1]
    note IHself = Cons.IH [of r1 logs1 w1 r1]
    show ?thesis
    proof (cases "routeLoop env wp dst ls (r1, logs1, w1)")
      case e: (Inl e)
      with IH Inr st stepj show ?thesis by (simp add: rebaseRoute_def)
    next
      case r: (Inr st2)
      obtain r2 logs2 w2 where st2: "st2 = (r2, logs2, w2)" by (cases st2)
      from IH r st2 obtain d2 where d2: "logs2 = logs1 @ d2"
        using take_prefix_append by blast
      from IHself r st2 d2 have keep: "\<not> placedIn d2 \<Longrightarrow> r2 = r1"
        by (simp add: rebaseRoute_def)
      have "routeLoop env wp dst ls (j1, logs1, w1)
              = Inr (if placedIn d2 then r2 else j1, logs2, w2)"
        using IH r st2 d2 by (simp add: rebaseRoute_def)
      moreover have "(if placedIn d2 then r2 else j1)
              = (if placedIn (d1 @ d2) then r2 else j)"
        using keep by (auto simp: j1_def placedIn_append)
      ultimately show ?thesis
        using Inr st stepj r st2 d1 d2 by (simp add: rebaseRoute_def)
    qed
  qed
qed

lemma routeLoop_append:
  "routeLoop env wp dst (xs @ ys) st =
     (case routeLoop env wp dst xs st of Inl e \<Rightarrow> Inl e | Inr st' \<Rightarrow> routeLoop env wp dst ys st')"
  by (induction xs arbitrary: st) (auto split: sum.splits)

text \<open>
  C10. \<open>waterRoute\<close> passes one \<open>RouteInfo\<close> through the rounds for all the lakes. Split the
  lakes into the earlier and the later ones: when a placement succeeds among the later
  lakes, the \<open>RouteInfo\<close> that \<open>waterRoute\<close> returns is the one the later rounds produce from
  the state the earlier rounds left, whatever \<open>RouteInfo\<close> the earlier rounds wrote; what
  an earlier success wrote is overwritten. The state is passed on, so the objects placed
  earlier stay placed.
\<close>

theorem waterRoute_last_placement:
  assumes "waterAdopter (zones w dst) = Some coastTiles" and "coastTiles \<noteq> []"
    and "lakes wp = earlier @ later"
    and "routeLoop env wp dst earlier (emptyRouteInfo, [], w) = Inr (result1, logs1, w1)"
    and "routeLoop env wp dst later (result1, logs1, w1) = Inr (result2, logs2, w2)"
    and "placedIn (drop (length logs1) logs2)"
  shows "waterRoute env wp dst w = Inr (result2, logs2, w2)
     \<and> (\<forall>other. routeLoop env wp dst later (other, logs1, w1) = Inr (result2, logs2, w2))"
proof
  show "waterRoute env wp dst w = Inr (result2, logs2, w2)"
    using assms by (simp add: waterRoute_def routeLoop_append)
  show "\<forall>other. routeLoop env wp dst later (other, logs1, w1) = Inr (result2, logs2, w2)"
  proof
    fix other
    from routeLoop_info_logs [of env wp dst later other logs1 w1 result1] assms(5,6)
    show "routeLoop env wp dst later (other, logs1, w1) = Inr (result2, logs2, w2)"
      by (simp add: rebaseRoute_def)
  qed
qed

theorem waterRoute_last_placement_witness:
  "lakes coastProxy = [westLake] @ [eastLake]
   \<and> placedIn (fst (snd (projr (routeLoop demoEnv coastProxy 1 [westLake]
         (emptyRouteInfo, [], coastWorld)))))
   \<and> water (fst (projr (routeLoop demoEnv coastProxy 1 [westLake]
         (emptyRouteInfo, [], coastWorld)))) = [(- 1, 0, 0)]
   \<and> waterRoute demoEnv coastProxy 1 coastWorld
       = routeLoop demoEnv coastProxy 1 [eastLake]
           (projr (routeLoop demoEnv coastProxy 1 [westLake] (emptyRouteInfo, [], coastWorld)))
   \<and> water (fst (projr (waterRoute demoEnv coastProxy 1 coastWorld))) = [(1, 0, 0)]
   \<and> length (ext (snd (snd (projr (waterRoute demoEnv coastProxy 1 coastWorld))))) = 2"
proof -
  let ?A = "routeLoop demoEnv coastProxy 1 [westLake] (emptyRouteInfo, [], coastWorld)"
  let ?B = "routeLoop demoEnv coastProxy 1 [eastLake] (projr ?A)"
  have l: "lakes coastProxy = [westLake] @ [eastLake]" by (simp add: coastProxy_def)
  have c: "waterAdopter (zones coastWorld 1) = Some [(0, 0, 0)]" "[(0, 0, 0)] \<noteq> ([] :: Area)"
    by code_simp+
  have a: "\<not> isl ?A" by code_simp
  have b: "\<not> isl ?B" by code_simp
  have p1: "placedIn (fst (snd (projr ?A)))" by code_simp
  have p2: "placedIn (drop (length (fst (snd (projr ?A)))) (fst (snd (projr ?B))))" by code_simp
  have wa: "water (fst (projr ?A)) = [(- 1, 0, 0)]" by code_simp
  have ea: "?A = Inr (fst (projr ?A), fst (snd (projr ?A)), snd (snd (projr ?A)))"
    using a by (cases ?A) auto
  have eb: "routeLoop demoEnv coastProxy 1 [eastLake]
              (fst (projr ?A), fst (snd (projr ?A)), snd (snd (projr ?A)))
            = Inr (fst (projr ?B), fst (snd (projr ?B)), snd (snd (projr ?B)))"
    using b by (cases ?B) auto
  from waterRoute_last_placement [OF c l ea eb p2]
  have r: "waterRoute demoEnv coastProxy 1 coastWorld
             = Inr (fst (projr ?B), fst (snd (projr ?B)), snd (snd (projr ?B)))"
    by blast
  with eb have 1: "waterRoute demoEnv coastProxy 1 coastWorld = ?B" by simp
  have 2: "water (fst (projr ?B)) = [(1, 0, 0)]" by code_simp
  have 3: "length (ext (snd (snd (projr ?B)))) = 2" by code_simp
  from l p1 wa 1 2 3 show ?thesis by simp
qed

end
